theory Spec2Isabelle
  imports Main
begin

section \<open>Values and strings of the host language\<close>

text \<open>
  HanORM is a TypeScript class over the \<^verbatim>\<open>mysql2/promise\<close> driver. Row data has type
  \<^verbatim>\<open>any\<close>; the model keeps the scalar values a row can hold. A JavaScript number is
  modelled where it is integer-valued (ids, page numbers, sizes), as an \<^typ>\<open>int\<close>;
  fractions, NaN and magnitudes beyond the exactly representable integers are outside the model.
\<close>

datatype jsval = JNum int | JStr string | JBool bool | JNull | JUndefined

text \<open>
  An object used as a dictionary (\<^verbatim>\<open>Record<string, any>\<close>) is the list of its entries in
  the order \<^verbatim>\<open>Object.keys\<close>, \<^verbatim>\<open>Object.values\<close> and \<^verbatim>\<open>Object.entries\<close> enumerate them.
\<close>

type_synonym 'v record_of = "(string \<times> 'v) list"

definition Object_keys :: "'v record_of \<Rightarrow> string list" where
  "Object_keys obj = map fst obj"

definition Object_values :: "'v record_of \<Rightarrow> 'v list" where
  "Object_values obj = map snd obj"

text \<open>\<^verbatim>\<open>Array.prototype.join\<close> on an array of strings.\<close>

fun array_join :: "string \<Rightarrow> string list \<Rightarrow> string" where
  "array_join sep [] = []"
| "array_join sep [x] = x"
| "array_join sep (x # y # ys) = x @ sep @ array_join sep (y # ys)"

text \<open>
  An integer-valued number inside a template string is written in decimal, with a leading
  minus sign when negative.
\<close>

definition digit_char :: "nat \<Rightarrow> char" where
  "digit_char d = ''0123456789'' ! d"

fun decimal :: "nat \<Rightarrow> string" where
  "decimal n = (if 10 \<le> n then decimal (n div 10) @ [digit_char (n mod 10)] else [digit_char n])"

declare decimal.simps [simp del]

definition number_text :: "int \<Rightarrow> string" where
  "number_text i = (if 0 \<le> i then decimal (nat i) else CHR ''-'' # decimal (nat (- i)))"

text \<open>
  A JavaScript number is a double. An \<^typ>\<open>int\<close> of the model stands for the number of the same
  value; \<^verbatim>\<open>-\<close>, \<^verbatim>\<open>*\<close> and the decimal text of the model are those of the code where the
  operands and the result are safe integers (at most \<^verbatim>\<open>Number.MAX_SAFE_INTEGER\<close> in
  magnitude). Beyond that the code rounds and, from \<^verbatim>\<open>1e21\<close>, prints an exponent; the
  theorems about rendered numbers are stated for safe integers.
\<close>

definition safe_integer :: "int \<Rightarrow> bool" where
  "safe_integer n = (- 9007199254740991 \<le> n \<and> n \<le> 9007199254740991)"

text \<open>What \<^verbatim>\<open>${v}\<close> renders for a value.\<close>

fun toString :: "jsval \<Rightarrow> string" where
  "toString (JNum n) = number_text n"
| "toString (JStr s) = s"
| "toString (JBool b) = (if b then ''true'' else ''false'')"
| "toString JNull = ''null''"
| "toString JUndefined = ''undefined''"

text \<open>\<^verbatim>\<open>String.prototype.toUpperCase\<close>, on ASCII text.\<close>

definition toUpperCase_char :: "char \<Rightarrow> char" where
  "toUpperCase_char c =
     (let n = (of_char c :: nat) in if 97 \<le> n \<and> n \<le> 122 then char_of (n - 32) else c)"

definition toUpperCase :: "string \<Rightarrow> string" where
  "toUpperCase s = map toUpperCase_char s"

datatype JoinType = INNER | LEFT | RIGHT

fun JoinType_text :: "JoinType \<Rightarrow> string" where
  "JoinType_text INNER = ''INNER''"
| "JoinType_text LEFT = ''LEFT''"
| "JoinType_text RIGHT = ''RIGHT''"

datatype SortOrder = asc | desc

fun SortOrder_text :: "SortOrder \<Rightarrow> string" where
  "SortOrder_text asc = ''asc''"
| "SortOrder_text desc = ''desc''"

section \<open>The connection provider\<close>

text \<open>
  The pool and its connections belong to the driver. The model records every call HanORM makes
  to them, in order, and takes the driver's answers from a parameter: each answer may depend on
  the calls made so far. \<^verbatim>\<open>release\<close> is synchronous and is taken not to throw.
  \<^verbatim>\<open>escape\<close> is the driver's formatter of a value as an SQL literal.
\<close>

type_synonym conn = nat

datatype error = DriverError string | TypeError string

datatype call =
    GetConnection
  | BeginTransaction conn
  | Execute conn string "jsval list"
  | Commit conn
  | Rollback conn
  | Release conn

datatype qresult = Rows "jsval record_of list" | ResultSetHeader int int

record driver =
  d_escape :: "jsval \<Rightarrow> string"
  d_getConnection :: "call list \<Rightarrow> error + conn"
  d_beginTransaction :: "call list \<Rightarrow> conn \<Rightarrow> error + unit"
  d_execute :: "call list \<Rightarrow> conn \<Rightarrow> string \<Rightarrow> jsval list \<Rightarrow> error + qresult"
  d_commit :: "call list \<Rightarrow> conn \<Rightarrow> error + unit"
  d_rollback :: "call list \<Rightarrow> conn \<Rightarrow> error + unit"

section \<open>The instance\<close>

record ConnectionOptions =
  opt_connectionLimit :: "int option"
  opt_host :: string
  opt_user :: string
  opt_password :: string
  opt_database :: string
  opt_sync :: "bool option"
  opt_logging :: "bool option"

record PoolOptions =
  pool_connectionLimit :: int
  pool_host :: string
  pool_user :: string
  pool_password :: string
  pool_database :: string

text \<open>
  The constructor keeps a reference to the caller's options object, so objects live in a store
  and the instance holds an address.
\<close>

type_synonym addr = nat

type_synonym heap = "addr \<Rightarrow> ConnectionOptions option"

record HanORM =
  connectionOptions :: addr
  pool :: PoolOptions
  sync :: bool
  logging :: bool
  transactionConnection :: "conn option"

text \<open>
  \<^verbatim>\<open>constructor(private connectionOptions: ConnectionOptions)\<close>: reads \<^verbatim>\<open>sync\<close> and
  \<^verbatim>\<open>logging\<close> (default false), deletes both keys from the object, then builds the pool
  configuration from the same object. A missing object makes the first \<^verbatim>\<open>delete\<close> throw.
\<close>

definition constructor :: "heap \<Rightarrow> addr \<Rightarrow> error + (HanORM \<times> heap)" where
  "constructor h a =
     (case h a of
        None \<Rightarrow> Inl (TypeError ''Cannot convert undefined or null to object'')
      | Some opts \<Rightarrow>
          let this_sync = (case opt_sync opts of Some b \<Rightarrow> b | None \<Rightarrow> False);
              this_logging = (case opt_logging opts of Some b \<Rightarrow> b | None \<Rightarrow> False);
              opts1 = opts\<lparr>opt_sync := None\<rparr>;
              opts2 = opts1\<lparr>opt_logging := None\<rparr>;
              poolConfig = \<lparr>pool_connectionLimit =
                              (case opt_connectionLimit opts2 of
                                 None \<Rightarrow> 10
                               | Some n \<Rightarrow> if n = 0 then 10 else n),
                            pool_host = opt_host opts2,
                            pool_user = opt_user opts2,
                            pool_password = opt_password opts2,
                            pool_database = opt_database opts2\<rparr>
          in Inr (\<lparr>connectionOptions = a, pool = poolConfig, sync = this_sync,
                    logging = this_logging, transactionConnection = None\<rparr>,
                  h(a \<mapsto> opts2)))"

section \<open>Asynchronous methods as state transformers\<close>

text \<open>
  A method runs on the instance and the log of driver calls; it ends with a value or with a
  thrown error, and the state it leaves is kept in both cases.
\<close>

record world = HanORM +
  trace :: "call list"

type_synonym 'a io = "world \<Rightarrow> (error + 'a) \<times> world"

definition ret :: "'a \<Rightarrow> 'a io" where
  "ret x = (\<lambda>s. (Inr x, s))"

definition throw :: "error \<Rightarrow> 'a io" where
  "throw e = (\<lambda>s. (Inl e, s))"

definition bindE :: "'a io \<Rightarrow> ('a \<Rightarrow> 'b io) \<Rightarrow> 'b io" where
  "bindE m f = (\<lambda>s. case m s of (Inl e, s') \<Rightarrow> (Inl e, s') | (Inr x, s') \<Rightarrow> f x s')"

definition tryCatch :: "'a io \<Rightarrow> (error \<Rightarrow> 'a io) \<Rightarrow> 'a io" where
  "tryCatch m handler = (\<lambda>s. case m s of (Inl e, s') \<Rightarrow> handler e s' | (Inr x, s') \<Rightarrow> (Inr x, s'))"

definition tryFinally :: "'a io \<Rightarrow> unit io \<Rightarrow> 'a io" where
  "tryFinally m fin =
     (\<lambda>s. case m s of (r, s') \<Rightarrow>
             (case fin s' of (Inl e, s'') \<Rightarrow> (Inl e, s'') | (Inr u, s'') \<Rightarrow> (r, s'')))"

subsection \<open>Calls to the driver\<close>

definition pool_getConnection :: "driver \<Rightarrow> conn io" where
  "pool_getConnection drv =
     (\<lambda>s. (d_getConnection drv (trace s), s\<lparr>trace := trace s @ [GetConnection]\<rparr>))"

definition connection_beginTransaction :: "driver \<Rightarrow> conn \<Rightarrow> unit io" where
  "connection_beginTransaction drv c =
     (\<lambda>s. (d_beginTransaction drv (trace s) c, s\<lparr>trace := trace s @ [BeginTransaction c]\<rparr>))"

definition connection_execute :: "driver \<Rightarrow> conn \<Rightarrow> string \<Rightarrow> jsval list \<Rightarrow> qresult io" where
  "connection_execute drv c query params =
     (\<lambda>s. (d_execute drv (trace s) c query params,
           s\<lparr>trace := trace s @ [Execute c query params]\<rparr>))"

definition connection_commit :: "driver \<Rightarrow> conn \<Rightarrow> unit io" where
  "connection_commit drv c =
     (\<lambda>s. (d_commit drv (trace s) c, s\<lparr>trace := trace s @ [Commit c]\<rparr>))"

definition connection_rollback :: "driver \<Rightarrow> conn \<Rightarrow> unit io" where
  "connection_rollback drv c =
     (\<lambda>s. (d_rollback drv (trace s) c, s\<lparr>trace := trace s @ [Rollback c]\<rparr>))"

definition connection_release :: "conn \<Rightarrow> unit io" where
  "connection_release c = (\<lambda>s. (Inr (), s\<lparr>trace := trace s @ [Release c]\<rparr>))"

subsection \<open>The transaction handle\<close>

text \<open>
  \<^verbatim>\<open>this.transactionConnection = v\<close>, and a method call on \<^verbatim>\<open>this.transactionConnection\<close>,
  which throws when the field is null.
\<close>

definition set_transactionConnection :: "conn option \<Rightarrow> unit io" where
  "set_transactionConnection v = (\<lambda>s. (Inr (), s\<lparr>transactionConnection := v\<rparr>))"

definition on_transactionConnection :: "(conn \<Rightarrow> 'a io) \<Rightarrow> 'a io" where
  "on_transactionConnection f =
     (\<lambda>s. case transactionConnection s of
             None \<Rightarrow> (Inl (TypeError ''Cannot read properties of null''), s)
           | Some c \<Rightarrow> f c s)"

definition startTransaction :: "driver \<Rightarrow> conn io" where
  "startTransaction drv =
     bindE (pool_getConnection drv) (\<lambda>c.
     bindE (set_transactionConnection (Some c)) (\<lambda>_.
     bindE (on_transactionConnection (connection_beginTransaction drv)) (\<lambda>_.
     on_transactionConnection ret)))"

definition commitTransaction :: "driver \<Rightarrow> unit io" where
  "commitTransaction drv =
     (\<lambda>s. if transactionConnection s = None then (Inr (), s)
          else bindE (on_transactionConnection (connection_commit drv)) (\<lambda>_.
               bindE (on_transactionConnection connection_release) (\<lambda>_.
               set_transactionConnection None)) s)"

definition rollbackTransaction :: "driver \<Rightarrow> unit io" where
  "rollbackTransaction drv =
     (\<lambda>s. if transactionConnection s = None then (Inr (), s)
          else bindE (on_transactionConnection (connection_rollback drv)) (\<lambda>_.
               bindE (on_transactionConnection connection_release) (\<lambda>_.
               set_transactionConnection None)) s)"

subsection \<open>Running one statement\<close>

text \<open>
  \<^verbatim>\<open>executeQuery(query, params = [], transactionConnection?)\<close> runs on the given connection,
  or on one taken from the pool, and releases the connection in its \<^verbatim>\<open>finally\<close> block in
  both cases. The decorators around the methods only write to the console and rethrow.
\<close>

definition executeQuery :: "driver \<Rightarrow> string \<Rightarrow> jsval list \<Rightarrow> conn option \<Rightarrow> qresult io" where
  "executeQuery drv query params txc =
     bindE (case txc of Some c \<Rightarrow> ret c | None \<Rightarrow> pool_getConnection drv) (\<lambda>connection.
     tryFinally (connection_execute drv connection query params)
                (connection_release connection))"

section \<open>Statements\<close>

subsection \<open>Schema\<close>





definition truthy_num :: "int option \<Rightarrow> bool" where
  "truthy_num v = (case v of None \<Rightarrow> False | Some n \<Rightarrow> n \<noteq> 0)"

definition truthy_str :: "string option \<Rightarrow> bool" where
  "truthy_str v = (case v of None \<Rightarrow> False | Some s \<Rightarrow> s \<noteq> [])"







subsection \<open>Join\<close>

definition joinQuery ::
  "JoinType option \<Rightarrow> string \<Rightarrow> string \<Rightarrow> string list \<Rightarrow> string list option \<Rightarrow> string" where
  "joinQuery joinType table1 table2 joinConditions selectFields =
     (let joinTypeClause =
            toUpperCase (JoinType_text (case joinType of None \<Rightarrow> INNER | Some t \<Rightarrow> t));
          selectFieldsClause =
            (case selectFields of Some fs \<Rightarrow> array_join '', '' fs | None \<Rightarrow> ''*'');
          joinConditionsClause = array_join '' AND '' joinConditions
      in ''\<newline>      SELECT '' @ selectFieldsClause @ ''\<newline>'' @
         ''      FROM '' @ table1 @ ''\<newline>'' @
         ''      '' @ joinTypeClause @ '' JOIN '' @ table2 @ '' ON '' @ joinConditionsClause @
         ''\<newline>    '')"

definition join ::
  "driver \<Rightarrow> JoinType option \<Rightarrow> string \<Rightarrow> string \<Rightarrow> string list \<Rightarrow> string list option
     \<Rightarrow> qresult io" where
  "join drv joinType table1 table2 joinConditions selectFields =
     executeQuery drv (joinQuery joinType table1 table2 joinConditions selectFields) [] None"

subsection \<open>Single rows\<close>

definition insertEntityQuery :: "string \<Rightarrow> string list \<Rightarrow> string" where
  "insertEntityQuery entityName fieldNames =
     ''\<newline>      INSERT INTO '' @ entityName @ '' ('' @ array_join '', '' fieldNames @
     '')\<newline>'' @
     ''      VALUES ('' @ array_join '', '' (map (\<lambda>_. ''?'') fieldNames) @ '')\<newline>    ''"

definition create :: "driver \<Rightarrow> string \<Rightarrow> jsval record_of \<Rightarrow> qresult io" where
  "create drv entityName fields' =
     (let fieldNames = Object_keys fields';
          fieldValues = Object_values fields'
      in executeQuery drv (insertEntityQuery entityName fieldNames) fieldValues None)"

definition updateEntityQuery :: "string \<Rightarrow> string list \<Rightarrow> string" where
  "updateEntityQuery entityName fieldNames =
     ''\<newline>      UPDATE '' @ entityName @ ''\<newline>'' @
     ''      SET '' @ array_join '', '' (map (\<lambda>fieldName. fieldName @ '' = ?'') fieldNames) @
     ''\<newline>'' @
     ''      WHERE id = ?\<newline>    ''"


definition deleteEntityQuery :: "string \<Rightarrow> string" where
  "deleteEntityQuery entityName = ''DELETE FROM '' @ entityName @ '' WHERE id = ?''"


subsection \<open>Batches\<close>

text \<open>
  The body of \<^verbatim>\<open>for (let field of entities)\<close> in \<^verbatim>\<open>createMany\<close>: one insert per row on the
  transaction's connection, its result pushed to \<^verbatim>\<open>result\<close>.
\<close>

text \<open>
  \<^verbatim>\<open>createMany\<close> builds the INSERT of each row from a template of its own, indented two
  columns deeper than the one of \<^verbatim>\<open>create\<close>.
\<close>

definition createMany_insertEntityQuery :: "string \<Rightarrow> string list \<Rightarrow> string" where
  "createMany_insertEntityQuery entityName fieldNames =
     ''\<newline>        INSERT INTO '' @ entityName @ '' ('' @ array_join '', '' fieldNames @
     '')\<newline>'' @
     ''        VALUES ('' @ array_join '', '' (map (\<lambda>_. ''?'') fieldNames) @ '')\<newline>      ''"

fun createMany_loop ::
  "driver \<Rightarrow> string \<Rightarrow> conn \<Rightarrow> jsval record_of list \<Rightarrow> qresult list \<Rightarrow> qresult list io" where
  "createMany_loop drv entityName tc [] result = ret result"
| "createMany_loop drv entityName tc (field # entities) result =
     bindE (executeQuery drv (createMany_insertEntityQuery entityName (Object_keys field))
              (Object_values field) (Some tc))
       (\<lambda>r. createMany_loop drv entityName tc entities (result @ [r]))"

definition createMany :: "driver \<Rightarrow> string \<Rightarrow> jsval record_of list \<Rightarrow> qresult list io" where
  "createMany drv entityName entities =
     bindE (startTransaction drv) (\<lambda>tc.
     tryCatch
       (bindE (createMany_loop drv entityName tc entities []) (\<lambda>result.
        bindE (commitTransaction drv) (\<lambda>_. ret result)))
       (\<lambda>error. bindE (rollbackTransaction drv) (\<lambda>_. throw error)))"

fun updateMany_loop ::
  "driver \<Rightarrow> string \<Rightarrow> conn \<Rightarrow> int list \<Rightarrow> jsval record_of \<Rightarrow> qresult list
     \<Rightarrow> qresult list io" where
  "updateMany_loop drv entityName tc [] fields' result = ret result"
| "updateMany_loop drv entityName tc (ident # ids) fields' result =
     bindE (executeQuery drv (updateEntityQuery entityName (Object_keys fields'))
              (Object_values fields' @ [JNum ident]) (Some tc))
       (\<lambda>r. updateMany_loop drv entityName tc ids fields' (result @ [r]))"

definition updateMany ::
  "driver \<Rightarrow> string \<Rightarrow> int list \<Rightarrow> jsval record_of \<Rightarrow> qresult list io" where
  "updateMany drv entityName ids fields' =
     bindE (startTransaction drv) (\<lambda>tc.
     tryCatch
       (bindE (updateMany_loop drv entityName tc ids fields' []) (\<lambda>result.
        bindE (commitTransaction drv) (\<lambda>_. ret result)))
       (\<lambda>error. bindE (rollbackTransaction drv) (\<lambda>_. throw error)))"

text \<open>
  The body of \<^verbatim>\<open>for (const id of ids)\<close> in \<^verbatim>\<open>deleteMany\<close>: the delete, then
  \<^verbatim>\<open>commitTransaction\<close>, both inside the loop.
\<close>

fun deleteMany_loop :: "driver \<Rightarrow> string \<Rightarrow> conn \<Rightarrow> int list \<Rightarrow> unit io" where
  "deleteMany_loop drv entityName tc [] = ret ()"
| "deleteMany_loop drv entityName tc (ident # ids) =
     bindE (executeQuery drv (deleteEntityQuery entityName) [JNum ident] (Some tc)) (\<lambda>_.
     bindE (commitTransaction drv) (\<lambda>_.
     deleteMany_loop drv entityName tc ids))"

definition deleteMany :: "driver \<Rightarrow> string \<Rightarrow> int list \<Rightarrow> unit io" where
  "deleteMany drv entityName ids =
     bindE (startTransaction drv) (\<lambda>tc.
     tryCatch (deleteMany_loop drv entityName tc ids)
       (\<lambda>error. bindE (rollbackTransaction drv) (\<lambda>_. throw error)))"

subsection \<open>Queries\<close>

definition conditionString :: "driver \<Rightarrow> jsval record_of option \<Rightarrow> string" where
  "conditionString drv conditions =
     (case conditions of
        Some cs \<Rightarrow>
          ''WHERE '' @
          array_join '' AND '' (map (\<lambda>(key, v). key @ '' = '' @ d_escape drv v) cs)
      | None \<Rightarrow> [])"

definition orderByClause :: "string option \<Rightarrow> SortOrder option \<Rightarrow> string" where
  "orderByClause sortBy sortOrder =
     (case sortBy of
        None \<Rightarrow> []
      | Some sb \<Rightarrow>
          if sb = [] then []
          else (case sortOrder of
                  None \<Rightarrow> []
                | Some ord \<Rightarrow> ''ORDER BY '' @ sb @ '' '' @ toUpperCase (SortOrder_text ord)))"

text \<open>
  \<^verbatim>\<open>pageSize && page ? `LIMIT ${pageSize} OFFSET ${(page - 1) * pageSize}` : ''\<close>. The offset
  is computed here on integers; it is the code's number where page, page size and offset are
  safe integers.
\<close>

definition limitClause :: "int option \<Rightarrow> int option \<Rightarrow> string" where
  "limitClause page pageSize =
     (case pageSize of
        None \<Rightarrow> []
      | Some ps \<Rightarrow>
          if ps = 0 then []
          else (case page of
                  None \<Rightarrow> []
                | Some p \<Rightarrow>
                    if p = 0 then []
                    else ''LIMIT '' @ number_text ps @ '' OFFSET '' @
                         number_text ((p - 1) * ps)))"

definition selectFieldsText :: "string option \<Rightarrow> string" where
  "selectFieldsText fields' =
     (case fields' of Some f \<Rightarrow> if length f \<noteq> 0 then f else ''*'' | None \<Rightarrow> ''*'')"

definition selectEntitiesQuery ::
  "driver \<Rightarrow> string \<Rightarrow> jsval record_of option \<Rightarrow> string option \<Rightarrow> int option \<Rightarrow> int option
     \<Rightarrow> string option \<Rightarrow> SortOrder option \<Rightarrow> string" where
  "selectEntitiesQuery drv entityName conditions fields' page pageSize sortBy sortOrder =
     ''\<newline>        SELECT '' @ selectFieldsText fields' @ ''\<newline>'' @
     ''        FROM '' @ entityName @ ''\<newline>'' @
     ''        '' @ conditionString drv conditions @ ''\<newline>'' @
     ''        '' @ orderByClause sortBy sortOrder @ ''\<newline>'' @
     ''        '' @ limitClause page pageSize @ ''\<newline>'' @
     ''      ''"

definition find_orm ::
  "driver \<Rightarrow> string \<Rightarrow> jsval record_of option \<Rightarrow> string option \<Rightarrow> int option \<Rightarrow> int option
     \<Rightarrow> string option \<Rightarrow> SortOrder option \<Rightarrow> qresult io" where
  "find_orm drv entityName conditions fields' page pageSize sortBy sortOrder =
     executeQuery drv
       (selectEntitiesQuery drv entityName conditions fields' page pageSize sortBy sortOrder)
       [] None"



section \<open>A driver whose calls all succeed\<close>

text \<open>
  Used to run the methods on concrete inputs: the pool hands out connection 0, every call
  returns normally, and a value is escaped by quoting its text.
\<close>

definition okDriver :: driver where
  "okDriver =
     \<lparr>d_escape = (\<lambda>v. case v of JStr s \<Rightarrow> [CHR 0x27] @ s @ [CHR 0x27] | _ \<Rightarrow> toString v),
      d_getConnection = (\<lambda>h. Inr 0),
      d_beginTransaction = (\<lambda>h c. Inr ()),
      d_execute = (\<lambda>h c q ps. Inr (ResultSetHeader 1 0)),
      d_commit = (\<lambda>h c. Inr ()),
      d_rollback = (\<lambda>h c. Inr ())\<rparr>"

definition idle :: world where
  "idle =
     \<lparr>connectionOptions = 0,
      pool = \<lparr>pool_connectionLimit = 10, pool_host = ''localhost'', pool_user = ''root'',
               pool_password = ''root'', pool_database = ''example-schema''\<rparr>,
      sync = False, logging = False, transactionConnection = None, trace = []\<rparr>"

definition active :: world where
  "active = idle\<lparr>transactionConnection := Some 0\<rparr>"

section \<open>Vocabulary for the batch theorems\<close>

text \<open>
  The INSERT text of one row of a batch, the calls one row makes on connection \<open>c\<close>, the
  calls of a list of rows, and the driver's answer to the insert of row \<open>j\<close> when the rows
  before it went through after the calls \<open>h\<close>.
\<close>

definition insert_text :: "string \<Rightarrow> jsval record_of \<Rightarrow> string" where
  "insert_text entityName row =
     ''\<newline>        INSERT INTO '' @ entityName @ '' ('' @ array_join '', '' (map fst row) @
     '')\<newline>        VALUES ('' @ array_join '', '' (replicate (length row) ''?'') @
     '')\<newline>      ''"

definition insert_calls :: "string \<Rightarrow> conn \<Rightarrow> jsval record_of \<Rightarrow> call list" where
  "insert_calls entityName c row = [Execute c (insert_text entityName row) (map snd row), Release c]"

definition batch_calls :: "string \<Rightarrow> conn \<Rightarrow> jsval record_of list \<Rightarrow> call list" where
  "batch_calls entityName c rows = concat (map (insert_calls entityName c) rows)"

definition insert_answer ::
  "driver \<Rightarrow> call list \<Rightarrow> string \<Rightarrow> conn \<Rightarrow> jsval record_of list \<Rightarrow> nat \<Rightarrow> error + qresult" where
  "insert_answer drv h entityName c rows j =
     d_execute drv (h @ batch_calls entityName c (take j rows)) c
       (insert_text entityName (rows ! j)) (map snd (rows ! j))"

text \<open>
  The \<^verbatim>\<open>catch\<close> block of a batch, entered with error \<open>e\<close> after the calls \<open>h\<close> while the
  handle holds \<open>c\<close>: ROLLBACK is issued; when it returns the connection is released, the
  handle is cleared and \<open>e\<close> is thrown again; when it throws, its own error propagates and
  the handle is left as it was.
\<close>

definition rolled_back ::
  "driver \<Rightarrow> conn \<Rightarrow> error \<Rightarrow> call list \<Rightarrow> world \<Rightarrow> (error + 'a) \<times> world" where
  "rolled_back drv c e h s =
     (case d_rollback drv h c of
        Inr u \<Rightarrow> (Inl e, s\<lparr>transactionConnection := None, trace := h @ [Rollback c, Release c]\<rparr>)
      | Inl e' \<Rightarrow> (Inl e', s\<lparr>transactionConnection := Some c, trace := h @ [Rollback c]\<rparr>))"

text \<open>
  Where the rendered numbers of a page request and of a field definition are those of the
  code: every number given, and the offset computed from page and page size, is a safe integer.
\<close>

definition offset_exact :: "int option \<Rightarrow> int option \<Rightarrow> bool" where
  "offset_exact page pageSize =
     ((case page of None \<Rightarrow> True | Some p \<Rightarrow> safe_integer p) \<and>
      (case pageSize of None \<Rightarrow> True | Some ps \<Rightarrow> safe_integer ps) \<and>
      (case page of
         None \<Rightarrow> True
       | Some p \<Rightarrow> (case pageSize of None \<Rightarrow> True | Some ps \<Rightarrow> safe_integer ((p - 1) * ps))))"


text \<open>A driver that refuses the row whose only value is \<^verbatim>\<open>"B"\<close>, and two rows to insert.\<close>

definition dupDriver :: driver where
  "dupDriver =
     okDriver\<lparr>d_execute :=
       (\<lambda>h c q ps. if ps = [JStr ''B''] then Inl (DriverError ''Duplicate entry'')
                   else Inr (ResultSetHeader 1 0))\<rparr>"

text \<open>
  The same driver when its connection is gone, so that ROLLBACK throws too; and one whose
  COMMIT throws.
\<close>

definition lostDriver :: driver where
  "lostDriver = dupDriver\<lparr>d_rollback := (\<lambda>h c. Inl (DriverError ''Connection lost''))\<rparr>"

definition noCommitDriver :: driver where
  "noCommitDriver = okDriver\<lparr>d_commit := (\<lambda>h c. Inl (DriverError ''Deadlock found''))\<rparr>"

definition rows_AB :: "jsval record_of list" where
  "rows_AB = [[(''name'', JStr ''A'')], [(''name'', JStr ''B'')]]"



text \<open>The calls of \<^verbatim>\<open>deleteMany\<close> for a list of ids, and a driver that refuses the delete of id 3.\<close>

definition delete_calls :: "string \<Rightarrow> conn \<Rightarrow> int list \<Rightarrow> call list" where
  "delete_calls entityName c ids =
     concat (map (\<lambda>ident. [Execute c (deleteEntityQuery entityName) [JNum ident], Release c]) ids)"

definition failOn3 :: driver where
  "failOn3 =
     okDriver\<lparr>d_execute :=
       (\<lambda>h c q ps. if ps = [JNum 3] then Inl (DriverError ''Lock wait timeout exceeded'')
                   else Inr (ResultSetHeader 1 0))\<rparr>"

section \<open>Example inputs\<close>

text \<open>Rows, field definitions and connection options in the style of the repository's example.\<close>

definition john :: "jsval record_of" where
  "john = [(''name'', JStr ''John Doe''), (''age'', JNum 33)]"






definition example_options :: ConnectionOptions where
  "example_options =
     \<lparr>opt_connectionLimit = Some 20, opt_host = ''localhost'', opt_user = ''root'',
      opt_password = ''root'', opt_database = ''example-schema'', opt_sync = Some True,
      opt_logging = Some True\<rparr>"

definition example_heap :: heap where
  "example_heap = (\<lambda>a. if a = 0 then Some example_options else None)"

section \<open>What one driver call leaves behind\<close>

lemmas io_defs = ret_def throw_def bindE_def tryCatch_def tryFinally_def
  pool_getConnection_def connection_beginTransaction_def connection_execute_def
  connection_commit_def connection_rollback_def connection_release_def
  set_transactionConnection_def on_transactionConnection_def

lemma executeQuery_pool:
  "executeQuery drv query params None s =
     (case d_getConnection drv (trace s) of
        Inl e \<Rightarrow> (Inl e, s\<lparr>trace := trace s @ [GetConnection]\<rparr>)
      | Inr c \<Rightarrow>
          (d_execute drv (trace s @ [GetConnection]) c query params,
           s\<lparr>trace := trace s @ [GetConnection, Execute c query params, Release c]\<rparr>))"
  by (simp add: executeQuery_def io_defs split: sum.splits)

lemma executeQuery_on:
  "executeQuery drv query params (Some c) s =
     (d_execute drv (trace s) c query params,
      s\<lparr>trace := trace s @ [Execute c query params, Release c]\<rparr>)"
  by (simp add: executeQuery_def io_defs split: sum.splits)

lemma startTransaction_run:
  "startTransaction drv s =
     (case d_getConnection drv (trace s) of
        Inl e \<Rightarrow> (Inl e, s\<lparr>trace := trace s @ [GetConnection]\<rparr>)
      | Inr c \<Rightarrow>
          (case d_beginTransaction drv (trace s @ [GetConnection]) c of
             Inl e \<Rightarrow> (Inl e, s\<lparr>transactionConnection := Some c,
                                 trace := trace s @ [GetConnection, BeginTransaction c]\<rparr>)
           | Inr u \<Rightarrow> (Inr c, s\<lparr>transactionConnection := Some c,
                                 trace := trace s @ [GetConnection, BeginTransaction c]\<rparr>)))"
  by (simp add: startTransaction_def io_defs split: sum.splits)

lemma commitTransaction_idle:
  "transactionConnection s = None \<Longrightarrow> commitTransaction drv s = (Inr (), s)"
  by (simp add: commitTransaction_def)

lemma commitTransaction_active:
  "transactionConnection s = Some c \<Longrightarrow>
   commitTransaction drv s =
     (case d_commit drv (trace s) c of
        Inl e \<Rightarrow> (Inl e, s\<lparr>trace := trace s @ [Commit c]\<rparr>)
      | Inr u \<Rightarrow> (Inr (), s\<lparr>transactionConnection := None,
                             trace := trace s @ [Commit c, Release c]\<rparr>))"
  by (simp add: commitTransaction_def io_defs split: sum.splits)

lemma rollbackTransaction_idle:
  "transactionConnection s = None \<Longrightarrow> rollbackTransaction drv s = (Inr (), s)"
  by (simp add: rollbackTransaction_def)

lemma rollbackTransaction_active:
  "transactionConnection s = Some c \<Longrightarrow>
   rollbackTransaction drv s =
     (case d_rollback drv (trace s) c of
        Inl e \<Rightarrow> (Inl e, s\<lparr>trace := trace s @ [Rollback c]\<rparr>)
      | Inr u \<Rightarrow> (Inr (), s\<lparr>transactionConnection := None,
                             trace := trace s @ [Rollback c, Release c]\<rparr>))"
  by (simp add: rollbackTransaction_def io_defs split: sum.splits)

lemma commit_active_ok:
  "commitTransaction okDriver active = (Inr (), idle\<lparr>trace := [Commit 0, Release 0]\<rparr>)"
  by (simp add: commitTransaction_active [of _ 0] active_def idle_def okDriver_def)

lemma rollback_active_ok:
  "rollbackTransaction okDriver active = (Inr (), idle\<lparr>trace := [Rollback 0, Release 0]\<rparr>)"
  by (simp add: rollbackTransaction_active [of _ 0] active_def idle_def okDriver_def)

section \<open>Sequencing\<close>

lemma bindE_Inr: "m s = (Inr x, s') \<Longrightarrow> bindE m f s = f x s'"
  by (simp add: bindE_def)

lemma bindE_Inl: "m s = (Inl e, s') \<Longrightarrow> bindE m f s = (Inl e, s')"
  by (simp add: bindE_def)

lemma tryCatch_Inr: "m s = (Inr x, s') \<Longrightarrow> tryCatch m handler s = (Inr x, s')"
  by (simp add: tryCatch_def)

lemma tryCatch_Inl: "m s = (Inl e, s') \<Longrightarrow> tryCatch m handler s = handler e s'"
  by (simp add: tryCatch_def)

lemma catch_rollback:
  "transactionConnection s1 = Some c \<Longrightarrow>
   bindE (rollbackTransaction drv) (\<lambda>_. throw e) s1 =
     (rolled_back drv c e (trace s1) s1 :: (error + 'a) \<times> world)"
  by (simp add: rollbackTransaction_active bindE_def throw_def rolled_back_def split: sum.splits)

section \<open>Text helpers\<close>

lemma toUpperCase_literals:
  "toUpperCase ''INNER'' = ''INNER''" "toUpperCase ''LEFT'' = ''LEFT''"
  "toUpperCase ''RIGHT'' = ''RIGHT''" "toUpperCase ''asc'' = ''ASC''"
  "toUpperCase ''desc'' = ''DESC''"
  by code_simp+

lemma toUpperCase_JoinType: "toUpperCase (JoinType_text jt) = JoinType_text jt"
  by (cases jt) (simp_all add: toUpperCase_literals)

lemma count_list_placeholders:
  "count_list (array_join '', '' (replicate n ''?'')) CHR ''?'' = n"
proof (induction n)
  case 0
  then show ?case by simp
next
  case (Suc n)
  then show ?case by (cases n) simp_all
qed

lemma count_list_array_join_none:
  "\<forall>x\<in>set xs. c \<notin> set x \<Longrightarrow> c \<notin> set sep \<Longrightarrow> count_list (array_join sep xs) c = 0"
  by (induction sep xs rule: array_join.induct) auto

lemma count_list_notin: "c \<notin> set xs \<Longrightarrow> count_list xs c = 0"
  by (induction xs) auto

section \<open>Deleting a batch\<close>

lemma deleteMany_loop_after_commit:
  "transactionConnection s = None \<Longrightarrow>
   deleteMany_loop okDriver t c ids s = (Inr (), s\<lparr>trace := trace s @ delete_calls t c ids\<rparr>)"
proof (induction ids arbitrary: s)
  case Nil
  then show ?case by (simp add: ret_def delete_calls_def)
next
  case (Cons i ids)
  let ?s1 = "s\<lparr>trace := trace s @ [Execute c (deleteEntityQuery t) [JNum i], Release c]\<rparr>"
  have tc: "transactionConnection ?s1 = None" using Cons.prems by simp
  have ex: "executeQuery okDriver (deleteEntityQuery t) [JNum i] (Some c) s =
              (Inr (ResultSetHeader 1 0), ?s1)"
    by (simp add: executeQuery_on okDriver_def)
  have cm: "commitTransaction okDriver ?s1 = (Inr (), ?s1)"
    by (rule commitTransaction_idle [OF tc])
  have "deleteMany_loop okDriver t c (i # ids) s = deleteMany_loop okDriver t c ids ?s1"
    by (simp add: bindE_def ex cm del: deleteMany_loop.simps(2) add: deleteMany_loop.simps(2) [of okDriver t c i ids])
  also have "\<dots> = (Inr (), ?s1\<lparr>trace := trace ?s1 @ delete_calls t c ids\<rparr>)"
    by (rule Cons.IH [OF tc])
  also have "\<dots> = (Inr (), s\<lparr>trace := trace s @ delete_calls t c (i # ids)\<rparr>)"
    by (simp add: delete_calls_def)
  finally show ?case .
qed

text \<open>
  With a driver whose calls all succeed, \<^verbatim>\<open>deleteMany\<close> on a non-empty list commits right
  after the first DELETE: \<^verbatim>\<open>commitTransaction\<close> stands inside the loop, its first call
  clears the handle, and its later calls find the handle null and do nothing. The remaining
  DELETEs run on the released connection after the COMMIT.
\<close>

lemma deleteMany_commit_position:
  "deleteMany okDriver t (i # ids) s =
     (Inr (),
      s\<lparr>transactionConnection := None,
        trace := trace s @
          [GetConnection, BeginTransaction 0,
           Execute 0 (deleteEntityQuery t) [JNum i], Release 0, Commit 0, Release 0] @
          delete_calls t 0 ids\<rparr>)"
proof -
  let ?s0 = "s\<lparr>transactionConnection := Some 0,
                trace := trace s @ [GetConnection, BeginTransaction 0]\<rparr>"
  let ?s1 = "s\<lparr>transactionConnection := Some 0,
                trace := trace s @ [GetConnection, BeginTransaction 0,
                  Execute 0 (deleteEntityQuery t) [JNum i], Release 0]\<rparr>"
  let ?s2 = "s\<lparr>transactionConnection := None,
                trace := trace s @ [GetConnection, BeginTransaction 0,
                  Execute 0 (deleteEntityQuery t) [JNum i], Release 0, Commit 0, Release 0]\<rparr>"
  have start: "startTransaction okDriver s = (Inr 0, ?s0)"
    by (simp add: startTransaction_run okDriver_def)
  have ex: "executeQuery okDriver (deleteEntityQuery t) [JNum i] (Some 0) ?s0 =
              (Inr (ResultSetHeader 1 0), ?s1)"
    by (simp add: executeQuery_on okDriver_def)
  have cm: "commitTransaction okDriver ?s1 = (Inr (), ?s2)"
    by (simp add: commitTransaction_active [of _ 0] okDriver_def)
  have tc2: "transactionConnection ?s2 = None" by simp
  have rest: "deleteMany_loop okDriver t 0 ids ?s2 =
                (Inr (), ?s2\<lparr>trace := trace ?s2 @ delete_calls t 0 ids\<rparr>)"
    by (rule deleteMany_loop_after_commit [OF tc2])
  have "deleteMany_loop okDriver t 0 (i # ids) ?s0 =
          (Inr (), ?s2\<lparr>trace := trace ?s2 @ delete_calls t 0 ids\<rparr>)"
    by (simp add: bindE_def ex cm rest del: deleteMany_loop.simps(2)
        add: deleteMany_loop.simps(2) [of okDriver t 0 i ids])
  then show ?thesis
    by (simp add: deleteMany_def bindE_def start tryCatch_def)
qed

text \<open>
  C1. The claim: for a non-empty list of ids \<^verbatim>\<open>deleteMany\<close> issues exactly one commit, after
  all the DELETE statements. On \<^verbatim>\<open>deleteMany('User', [1, 2, 3])\<close> the code issues its one
  COMMIT after the first DELETE and before the DELETEs of ids 2 and 3.
\<close>

theorem deleteMany_commits_inside_loop:
  "deleteMany okDriver ''User'' [1, 2, 3] idle =
     (Inr (),
      idle\<lparr>trace :=
        [GetConnection, BeginTransaction 0,
         Execute 0 ''DELETE FROM User WHERE id = ?'' [JNum 1], Release 0,
         Commit 0, Release 0,
         Execute 0 ''DELETE FROM User WHERE id = ?'' [JNum 2], Release 0,
         Execute 0 ''DELETE FROM User WHERE id = ?'' [JNum 3], Release 0]\<rparr>)"
  by (simp add: deleteMany_commit_position delete_calls_def deleteEntityQuery_def) (simp add: idle_def)

text \<open>
  A DELETE that fails after the first row is not rolled back: the handle is already null, so
  \<^verbatim>\<open>rollbackTransaction\<close> in the \<^verbatim>\<open>catch\<close> block issues no ROLLBACK.
\<close>

lemma deleteMany_late_failure_not_rolled_back:
  "deleteMany failOn3 ''User'' [1, 2, 3] idle =
     (Inl (DriverError ''Lock wait timeout exceeded''),
      idle\<lparr>trace :=
        [GetConnection, BeginTransaction 0,
         Execute 0 ''DELETE FROM User WHERE id = ?'' [JNum 1], Release 0,
         Commit 0, Release 0,
         Execute 0 ''DELETE FROM User WHERE id = ?'' [JNum 2], Release 0,
         Execute 0 ''DELETE FROM User WHERE id = ?'' [JNum 3], Release 0]\<rparr>)"
  by (simp add: deleteMany_def startTransaction_run executeQuery_on commitTransaction_def
      rollbackTransaction_def deleteEntityQuery_def failOn3_def okDriver_def idle_def io_defs)

text \<open>The sibling \<^verbatim>\<open>updateMany\<close> commits once, after its loop.\<close>

lemma updateMany_commits_after_loop:
  "updateMany okDriver ''User'' [1, 2] [(''name'', JStr ''John'')] idle =
     (Inr [ResultSetHeader 1 0, ResultSetHeader 1 0],
      idle\<lparr>trace :=
        [GetConnection, BeginTransaction 0,
         Execute 0 ''\<newline>      UPDATE User\<newline>      SET name = ?\<newline>      WHERE id = ?\<newline>    ''
           [JStr ''John'', JNum 1], Release 0,
         Execute 0 ''\<newline>      UPDATE User\<newline>      SET name = ?\<newline>      WHERE id = ?\<newline>    ''
           [JStr ''John'', JNum 2], Release 0,
         Commit 0, Release 0]\<rparr>)"
  by (simp add: updateMany_def startTransaction_run executeQuery_on commitTransaction_def
      updateEntityQuery_def Object_keys_def Object_values_def okDriver_def idle_def io_defs)

section \<open>Inserting a batch\<close>

lemma batch_calls_Nil [simp]: "batch_calls t c [] = []"
  by (simp add: batch_calls_def)

lemma batch_calls_Cons:
  "batch_calls t c (row # rows) = insert_calls t c row @ batch_calls t c rows"
  by (simp add: batch_calls_def)

lemma createMany_insert_text:
  "createMany_insertEntityQuery t (Object_keys row) = insert_text t row"
  by (simp add: createMany_insertEntityQuery_def insert_text_def Object_keys_def
      map_replicate_const)

lemma insert_answer_0:
  "insert_answer drv h t c (row # rows) 0 = d_execute drv h c (insert_text t row) (map snd row)"
  by (simp add: insert_answer_def)

lemma insert_answer_Suc:
  "insert_answer drv h t c (row # rows) (Suc j) =
     insert_answer drv (h @ insert_calls t c row) t c rows j"
  by (simp add: insert_answer_def batch_calls_Cons)

lemma createMany_loop_Cons:
  "createMany_loop drv t c (row # rows) acc s =
     (case insert_answer drv (trace s) t c (row # rows) 0 of
        Inl e \<Rightarrow> (Inl e, s\<lparr>trace := trace s @ insert_calls t c row\<rparr>)
      | Inr r \<Rightarrow>
          createMany_loop drv t c rows (acc @ [r]) (s\<lparr>trace := trace s @ insert_calls t c row\<rparr>))"
  by (simp add: insert_answer_0 executeQuery_on bindE_def insert_calls_def
      createMany_insert_text Object_values_def split: sum.splits)

lemma createMany_loop_all_ok:
  "(\<forall>j<length rows. \<exists>r. insert_answer drv (trace s) t c rows j = Inr r) \<Longrightarrow>
   \<exists>res. length res = length rows \<and>
     (\<forall>j<length rows. insert_answer drv (trace s) t c rows j = Inr (res ! j)) \<and>
     createMany_loop drv t c rows acc s =
       (Inr (acc @ res), s\<lparr>trace := trace s @ batch_calls t c rows\<rparr>)"
proof (induction rows arbitrary: acc s)
  case Nil
  then show ?case by (simp add: ret_def)
next
  case (Cons row rows)
  from Cons.prems obtain r where r: "insert_answer drv (trace s) t c (row # rows) 0 = Inr r"
    by auto
  let ?s1 = "s\<lparr>trace := trace s @ insert_calls t c row\<rparr>"
  have "\<forall>j<length rows. \<exists>r. insert_answer drv (trace ?s1) t c rows j = Inr r"
  proof (intro allI impI)
    fix j assume "j < length rows"
    then have "Suc j < length (row # rows)" by simp
    with Cons.prems obtain r' where "insert_answer drv (trace s) t c (row # rows) (Suc j) = Inr r'"
      by blast
    then show "\<exists>r. insert_answer drv (trace ?s1) t c rows j = Inr r"
      by (simp add: insert_answer_Suc)
  qed
  from Cons.IH [OF this, of "acc @ [r]"] obtain res where
    res: "length res = length rows"
      "\<forall>j<length rows. insert_answer drv (trace ?s1) t c rows j = Inr (res ! j)"
      "createMany_loop drv t c rows (acc @ [r]) ?s1 =
         (Inr ((acc @ [r]) @ res), ?s1\<lparr>trace := trace ?s1 @ batch_calls t c rows\<rparr>)"
    by blast
  have run: "createMany_loop drv t c (row # rows) acc s =
          (Inr (acc @ (r # res)), s\<lparr>trace := trace s @ batch_calls t c (row # rows)\<rparr>)"
    by (simp add: createMany_loop_Cons r res(3) batch_calls_Cons del: createMany_loop.simps)
  have len: "length (r # res) = length (row # rows)" using res(1) by simp
  have each: "\<forall>j<length (row # rows).
      insert_answer drv (trace s) t c (row # rows) j = Inr ((r # res) ! j)"
  proof (intro allI impI)
    fix j assume j: "j < length (row # rows)"
    show "insert_answer drv (trace s) t c (row # rows) j = Inr ((r # res) ! j)"
    proof (cases j)
      case 0
      then show ?thesis by (simp add: r)
    next
      case (Suc j')
      with j have "j' < length rows" by simp
      with res(2) have "insert_answer drv (trace ?s1) t c rows j' = Inr (res ! j')" by blast
      then show ?thesis by (simp add: Suc insert_answer_Suc)
    qed
  qed
  from len each run show ?case by blast
qed

lemma createMany_loop_fails_at:
  "k < length rows \<Longrightarrow>
   (\<forall>j<k. \<exists>r. insert_answer drv (trace s) t c rows j = Inr r) \<Longrightarrow>
   insert_answer drv (trace s) t c rows k = Inl e \<Longrightarrow>
   createMany_loop drv t c rows acc s =
     (Inl e, s\<lparr>trace := trace s @ batch_calls t c (take (Suc k) rows)\<rparr>)"
proof (induction rows arbitrary: k acc s)
  case Nil
  then show ?case by simp
next
  case (Cons row rows)
  let ?s1 = "s\<lparr>trace := trace s @ insert_calls t c row\<rparr>"
  show ?case
  proof (cases k)
    case 0
    with Cons.prems show ?thesis
      by (simp add: createMany_loop_Cons batch_calls_Cons del: createMany_loop.simps)
  next
    case (Suc k')
    with Cons.prems obtain r where r: "insert_answer drv (trace s) t c (row # rows) 0 = Inr r"
      by auto
    have k': "k' < length rows" using Cons.prems Suc by simp
    have ok: "\<forall>j<k'. \<exists>r. insert_answer drv (trace ?s1) t c rows j = Inr r"
    proof (intro allI impI)
      fix j assume "j < k'"
      then have "Suc j < k" using Suc by simp
      with Cons.prems obtain r' where
        "insert_answer drv (trace s) t c (row # rows) (Suc j) = Inr r'" by blast
      then show "\<exists>r. insert_answer drv (trace ?s1) t c rows j = Inr r"
        by (simp add: insert_answer_Suc)
    qed
    have bad: "insert_answer drv (trace ?s1) t c rows k' = Inl e"
      using Cons.prems Suc by (simp add: insert_answer_Suc)
    from Cons.IH [OF k' ok bad, of "acc @ [r]"] show ?thesis
      by (simp add: createMany_loop_Cons r Suc batch_calls_Cons del: createMany_loop.simps)
  qed
qed

lemma Commit_notin_batch_calls: "Commit c' \<notin> set (batch_calls t c rows)"
  by (induction rows) (simp_all add: batch_calls_Cons insert_calls_def)

lemma createMany_run:
  assumes conn: "d_getConnection drv (trace s) = Inr c"
    and started: "d_beginTransaction drv (trace s @ [GetConnection]) c = Inr ()"
    and h0: "h0 = trace s @ [GetConnection, BeginTransaction c]"
  shows
    "((\<forall>j<length rows. \<exists>r. insert_answer drv h0 t c rows j = Inr r) \<longrightarrow>
        (\<exists>res. length res = length rows \<and>
           (\<forall>j<length rows. insert_answer drv h0 t c rows j = Inr (res ! j)) \<and>
           createMany drv t rows s =
             (case d_commit drv (h0 @ batch_calls t c rows) c of
                Inr u \<Rightarrow>
                  (Inr res,
                   s\<lparr>transactionConnection := None,
                     trace := h0 @ batch_calls t c rows @ [Commit c, Release c]\<rparr>)
              | Inl e \<Rightarrow> rolled_back drv c e (h0 @ batch_calls t c rows @ [Commit c]) s))) \<and>
     (\<forall>k e. k < length rows \<longrightarrow>
        (\<forall>j<k. \<exists>r. insert_answer drv h0 t c rows j = Inr r) \<longrightarrow>
        insert_answer drv h0 t c rows k = Inl e \<longrightarrow>
        createMany drv t rows s =
          rolled_back drv c e (h0 @ batch_calls t c (take (Suc k) rows)) s)"
proof -
  let ?s0 = "s\<lparr>transactionConnection := Some c, trace := h0\<rparr>"
  let ?body = "bindE (createMany_loop drv t c rows []) (\<lambda>result.
                 bindE (commitTransaction drv) (\<lambda>_. ret result))"
  have start: "startTransaction drv s = (Inr c, ?s0)"
    by (simp add: startTransaction_run conn started h0)
  have body: "createMany drv t rows s =
      tryCatch ?body (\<lambda>error. bindE (rollbackTransaction drv) (\<lambda>_. throw error)) ?s0"
    by (simp add: createMany_def bindE_def start)
  have caught: "createMany drv t rows s = rolled_back drv c e (h0 @ calls) s"
    if "?body ?s0 = (Inl e, s\<lparr>transactionConnection := Some c, trace := h0 @ calls\<rparr>)"
    for e calls
  proof -
    let ?s2 = "s\<lparr>transactionConnection := Some c, trace := h0 @ calls\<rparr>"
    have tc2: "transactionConnection ?s2 = Some c" by simp
    have "createMany drv t rows s = bindE (rollbackTransaction drv) (\<lambda>_. throw e) ?s2"
      unfolding body using that by (rule tryCatch_Inl [where m = ?body])
    also have "\<dots> = rolled_back drv c e (trace ?s2) ?s2"
      by (rule catch_rollback [OF tc2])
    also have "\<dots> = rolled_back drv c e (h0 @ calls) s"
      by (simp add: rolled_back_def split: sum.splits)
    finally show ?thesis .
  qed
  have ok: "\<exists>res. length res = length rows \<and>
           (\<forall>j<length rows. insert_answer drv h0 t c rows j = Inr (res ! j)) \<and>
           createMany drv t rows s =
             (case d_commit drv (h0 @ batch_calls t c rows) c of
                Inr u \<Rightarrow>
                  (Inr res,
                   s\<lparr>transactionConnection := None,
                     trace := h0 @ batch_calls t c rows @ [Commit c, Release c]\<rparr>)
              | Inl e \<Rightarrow> rolled_back drv c e (h0 @ batch_calls t c rows @ [Commit c]) s)"
    if all: "\<forall>j<length rows. \<exists>r. insert_answer drv h0 t c rows j = Inr r"
  proof -
    let ?s1 = "s\<lparr>transactionConnection := Some c, trace := h0 @ batch_calls t c rows\<rparr>"
    from all have "\<forall>j<length rows. \<exists>r. insert_answer drv (trace ?s0) t c rows j = Inr r"
      by simp
    from createMany_loop_all_ok [OF this, of "[]"] obtain res where
      len: "length res = length rows" and
      each0: "\<forall>j<length rows. insert_answer drv (trace ?s0) t c rows j = Inr (res ! j)" and
      loop0: "createMany_loop drv t c rows [] ?s0 =
               (Inr ([] @ res), ?s0\<lparr>trace := trace ?s0 @ batch_calls t c rows\<rparr>)"
      by blast
    from each0 have each: "\<forall>j<length rows. insert_answer drv h0 t c rows j = Inr (res ! j)"
      by simp
    have loop: "createMany_loop drv t c rows [] ?s0 = (Inr res, ?s1)"
      by (simp add: loop0)
    have eq: "createMany drv t rows s =
             (case d_commit drv (h0 @ batch_calls t c rows) c of
                Inr u \<Rightarrow>
                  (Inr res,
                   s\<lparr>transactionConnection := None,
                     trace := h0 @ batch_calls t c rows @ [Commit c, Release c]\<rparr>)
              | Inl e \<Rightarrow> rolled_back drv c e (h0 @ batch_calls t c rows @ [Commit c]) s)"
    proof (cases "d_commit drv (h0 @ batch_calls t c rows) c")
      case (Inr u)
      let ?s3 = "s\<lparr>transactionConnection := None,
                    trace := h0 @ batch_calls t c rows @ [Commit c, Release c]\<rparr>"
      have c3: "commitTransaction drv ?s1 = (Inr (), ?s3)"
        by (simp add: commitTransaction_active [of _ c] Inr)
      have "bindE (commitTransaction drv) (\<lambda>_. ret res) ?s1 = (Inr res, ?s3)"
        by (simp only: bindE_Inr [where m = "commitTransaction drv", OF c3] ret_def)
      then have "?body ?s0 = (Inr res, ?s3)"
        by (simp only: bindE_Inr [where m = "createMany_loop drv t c rows []", OF loop])
      then have "createMany drv t rows s = (Inr res, ?s3)"
        unfolding body by (rule tryCatch_Inr [where m = ?body])
      then show ?thesis by (simp only: Inr sum.case)
    next
      case (Inl e)
      let ?s2 = "s\<lparr>transactionConnection := Some c,
                    trace := h0 @ batch_calls t c rows @ [Commit c]\<rparr>"
      have c2: "commitTransaction drv ?s1 = (Inl e, ?s2)"
        by (simp add: commitTransaction_active [of _ c] Inl)
      have "bindE (commitTransaction drv) (\<lambda>_. ret res) ?s1 = (Inl e, ?s2)"
        by (simp only: bindE_Inl [where m = "commitTransaction drv", OF c2])
      then have "?body ?s0 = (Inl e, ?s2)"
        by (simp only: bindE_Inr [where m = "createMany_loop drv t c rows []", OF loop])
      from caught [OF this] show ?thesis by (simp only: Inl sum.case)
    qed
    show ?thesis by (rule exI [of _ res]) (intro conjI len each eq)
  qed
  have bad: "createMany drv t rows s =
          rolled_back drv c e (h0 @ batch_calls t c (take (Suc k) rows)) s"
    if k: "k < length rows"
      and before: "\<forall>j<k. \<exists>r. insert_answer drv h0 t c rows j = Inr r"
      and at: "insert_answer drv h0 t c rows k = Inl e"
    for k e
  proof -
    let ?s1 = "s\<lparr>transactionConnection := Some c,
                  trace := h0 @ batch_calls t c (take (Suc k) rows)\<rparr>"
    from before have b: "\<forall>j<k. \<exists>r. insert_answer drv (trace ?s0) t c rows j = Inr r" by simp
    from at have a: "insert_answer drv (trace ?s0) t c rows k = Inl e" by simp
    have loop: "createMany_loop drv t c rows [] ?s0 = (Inl e, ?s1)"
      by (simp add: createMany_loop_fails_at [OF k b a, of "[]"])
    have "?body ?s0 = (Inl e, ?s1)"
      by (simp only: bindE_Inl [where m = "createMany_loop drv t c rows []", OF loop])
    from caught [OF this] show ?thesis .
  qed
  from ok bad show ?thesis by blast
qed

lemma batch_calls_AB:
  "batch_calls ''User'' 0 rows_AB =
     [Execute 0 ''\<newline>        INSERT INTO User (name)\<newline>        VALUES (?)\<newline>      ''
        [JStr ''A''],
      Release 0,
      Execute 0 ''\<newline>        INSERT INTO User (name)\<newline>        VALUES (?)\<newline>      ''
        [JStr ''B''],
      Release 0]"
  by (simp add: batch_calls_def insert_calls_def insert_text_def rows_AB_def)

text \<open>
  C2, as stated, fails: the error raised is not always the original one. When the insert of a
  row fails and the ROLLBACK that follows throws as well (here: the connection is gone),
  \<^verbatim>\<open>createMany\<close> raises the error of the ROLLBACK, and the handle stays set.
\<close>

theorem createMany_rollback_error:
  "d_execute lostDriver
     [GetConnection, BeginTransaction 0,
      Execute 0 ''\<newline>        INSERT INTO User (name)\<newline>        VALUES (?)\<newline>      ''
        [JStr ''A''],
      Release 0]
     0 ''\<newline>        INSERT INTO User (name)\<newline>        VALUES (?)\<newline>      '' [JStr ''B''] =
     Inl (DriverError ''Duplicate entry'') \<and>
   createMany lostDriver ''User'' rows_AB idle =
     (Inl (DriverError ''Connection lost''),
      idle\<lparr>transactionConnection := Some 0,
        trace :=
          [GetConnection, BeginTransaction 0,
           Execute 0 ''\<newline>        INSERT INTO User (name)\<newline>        VALUES (?)\<newline>      ''
             [JStr ''A''],
           Release 0,
           Execute 0 ''\<newline>        INSERT INTO User (name)\<newline>        VALUES (?)\<newline>      ''
             [JStr ''B''],
           Release 0, Rollback 0]\<rparr>)"
  by (simp add: createMany_def startTransaction_run executeQuery_on commitTransaction_def
      rollbackTransaction_def createMany_insertEntityQuery_def Object_keys_def Object_values_def
      rows_AB_def lostDriver_def dupDriver_def okDriver_def idle_def io_defs)

text \<open>
  C2, amended. \<^verbatim>\<open>createMany\<close>, once its transaction is open on connection \<open>c\<close> (one
  \<^verbatim>\<open>getConnection\<close>, one \<^verbatim>\<open>beginTransaction\<close>), sends one INSERT per row on \<open>c\<close>, in
  input order, each with one \<^verbatim>\<open>?\<close> per field and the row's values as parameters. If every
  insert succeeds it calls COMMIT exactly once, after the last row, and when the COMMIT returns
  it returns the results of the rows in order. If the insert of row \<open>k\<close> is the first to fail,
  with error \<open>e\<close>, the rows after \<open>k\<close> are never sent, no COMMIT is issued and ROLLBACK is
  called; when the ROLLBACK returns, the connection is released, the handle is cleared and
  \<open>e\<close> is raised again; when the ROLLBACK throws, its error is raised instead and the handle
  stays set. A COMMIT that throws is followed by the same ROLLBACK.
\<close>

theorem createMany_transaction:
  assumes conn: "d_getConnection drv (trace s) = Inr c"
    and started: "d_beginTransaction drv (trace s @ [GetConnection]) c = Inr ()"
    and h0: "h0 = trace s @ [GetConnection, BeginTransaction c]"
  shows
    "((\<forall>j<length rows. \<exists>r. insert_answer drv h0 t c rows j = Inr r) \<longrightarrow>
        (\<exists>res. length res = length rows \<and>
           (\<forall>j<length rows. insert_answer drv h0 t c rows j = Inr (res ! j)) \<and>
           (d_commit drv (h0 @ batch_calls t c rows) c = Inr () \<longrightarrow>
              createMany drv t rows s =
                (Inr res,
                 s\<lparr>transactionConnection := None,
                   trace := h0 @ batch_calls t c rows @ [Commit c, Release c]\<rparr>)) \<and>
           (\<forall>e. d_commit drv (h0 @ batch_calls t c rows) c = Inl e \<longrightarrow>
              d_rollback drv (h0 @ batch_calls t c rows @ [Commit c]) c = Inr () \<longrightarrow>
              createMany drv t rows s =
                (Inl e,
                 s\<lparr>transactionConnection := None,
                   trace := h0 @ batch_calls t c rows @ [Commit c, Rollback c, Release c]\<rparr>)) \<and>
           (\<forall>e e'. d_commit drv (h0 @ batch_calls t c rows) c = Inl e \<longrightarrow>
              d_rollback drv (h0 @ batch_calls t c rows @ [Commit c]) c = Inl e' \<longrightarrow>
              createMany drv t rows s =
                (Inl e',
                 s\<lparr>transactionConnection := Some c,
                   trace := h0 @ batch_calls t c rows @ [Commit c, Rollback c]\<rparr>)))) \<and>
     (\<forall>k e. k < length rows \<longrightarrow>
        (\<forall>j<k. \<exists>r. insert_answer drv h0 t c rows j = Inr r) \<longrightarrow>
        insert_answer drv h0 t c rows k = Inl e \<longrightarrow>
        (d_rollback drv (h0 @ batch_calls t c (take (Suc k) rows)) c = Inr () \<longrightarrow>
           createMany drv t rows s =
             (Inl e,
              s\<lparr>transactionConnection := None,
                trace := h0 @ batch_calls t c (take (Suc k) rows) @ [Rollback c, Release c]\<rparr>)) \<and>
        (\<forall>e'. d_rollback drv (h0 @ batch_calls t c (take (Suc k) rows)) c = Inl e' \<longrightarrow>
           createMany drv t rows s =
             (Inl e',
              s\<lparr>transactionConnection := Some c,
                trace := h0 @ batch_calls t c (take (Suc k) rows) @ [Rollback c]\<rparr>))) \<and>
     (\<forall>c' sent. Commit c' \<notin> set (batch_calls t c sent)) \<and>
     batch_calls t c [] = [] \<and>
     (\<forall>row sent.
        batch_calls t c (row # sent) =
          [Execute c
             (''\<newline>        INSERT INTO '' @ t @ '' ('' @ array_join '', '' (map fst row) @
              '')\<newline>        VALUES ('' @ array_join '', '' (replicate (length row) ''?'') @
              '')\<newline>      '')
             (map snd row),
           Release c] @ batch_calls t c sent) \<and>
     (\<forall>h j.
        insert_answer drv h t c rows j =
          d_execute drv (h @ batch_calls t c (take j rows)) c
            (''\<newline>        INSERT INTO '' @ t @ '' ('' @ array_join '', '' (map fst (rows ! j)) @
             '')\<newline>        VALUES ('' @
             array_join '', '' (replicate (length (rows ! j)) ''?'') @ '')\<newline>      '')
            (map snd (rows ! j)))"
proof -
  note run = createMany_run [OF conn started h0, of rows t]
  have ok: "\<exists>res. length res = length rows \<and>
           (\<forall>j<length rows. insert_answer drv h0 t c rows j = Inr (res ! j)) \<and>
           (d_commit drv (h0 @ batch_calls t c rows) c = Inr () \<longrightarrow>
              createMany drv t rows s =
                (Inr res,
                 s\<lparr>transactionConnection := None,
                   trace := h0 @ batch_calls t c rows @ [Commit c, Release c]\<rparr>)) \<and>
           (\<forall>e. d_commit drv (h0 @ batch_calls t c rows) c = Inl e \<longrightarrow>
              d_rollback drv (h0 @ batch_calls t c rows @ [Commit c]) c = Inr () \<longrightarrow>
              createMany drv t rows s =
                (Inl e,
                 s\<lparr>transactionConnection := None,
                   trace := h0 @ batch_calls t c rows @ [Commit c, Rollback c, Release c]\<rparr>)) \<and>
           (\<forall>e e'. d_commit drv (h0 @ batch_calls t c rows) c = Inl e \<longrightarrow>
              d_rollback drv (h0 @ batch_calls t c rows @ [Commit c]) c = Inl e' \<longrightarrow>
              createMany drv t rows s =
                (Inl e',
                 s\<lparr>transactionConnection := Some c,
                   trace := h0 @ batch_calls t c rows @ [Commit c, Rollback c]\<rparr>))"
    if all: "\<forall>j<length rows. \<exists>r. insert_answer drv h0 t c rows j = Inr r"
  proof -
    from run all obtain res where
      len: "length res = length rows" and
      each: "\<forall>j<length rows. insert_answer drv h0 t c rows j = Inr (res ! j)" and
      eq: "createMany drv t rows s =
             (case d_commit drv (h0 @ batch_calls t c rows) c of
                Inr u \<Rightarrow>
                  (Inr res,
                   s\<lparr>transactionConnection := None,
                     trace := h0 @ batch_calls t c rows @ [Commit c, Release c]\<rparr>)
              | Inl e \<Rightarrow> rolled_back drv c e (h0 @ batch_calls t c rows @ [Commit c]) s)"
      by blast
    have a: "createMany drv t rows s =
                (Inr res,
                 s\<lparr>transactionConnection := None,
                   trace := h0 @ batch_calls t c rows @ [Commit c, Release c]\<rparr>)"
      if "d_commit drv (h0 @ batch_calls t c rows) c = Inr ()"
      using that by (simp add: eq)
    have b: "createMany drv t rows s =
                (Inl e,
                 s\<lparr>transactionConnection := None,
                   trace := h0 @ batch_calls t c rows @ [Commit c, Rollback c, Release c]\<rparr>)"
      if "d_commit drv (h0 @ batch_calls t c rows) c = Inl e"
        and "d_rollback drv (h0 @ batch_calls t c rows @ [Commit c]) c = Inr ()"
      for e
      using that by (simp add: eq rolled_back_def)
    have d: "createMany drv t rows s =
                (Inl e',
                 s\<lparr>transactionConnection := Some c,
                   trace := h0 @ batch_calls t c rows @ [Commit c, Rollback c]\<rparr>)"
      if "d_commit drv (h0 @ batch_calls t c rows) c = Inl e"
        and "d_rollback drv (h0 @ batch_calls t c rows @ [Commit c]) c = Inl e'"
      for e e'
      using that by (simp add: eq rolled_back_def)
    from len each a b d show ?thesis by blast
  qed
  have bad1: "createMany drv t rows s =
             (Inl e,
              s\<lparr>transactionConnection := None,
                trace := h0 @ batch_calls t c (take (Suc k) rows) @ [Rollback c, Release c]\<rparr>)"
    if "k < length rows"
      and "\<forall>j<k. \<exists>r. insert_answer drv h0 t c rows j = Inr r"
      and "insert_answer drv h0 t c rows k = Inl e"
      and rb: "d_rollback drv (h0 @ batch_calls t c (take (Suc k) rows)) c = Inr ()"
    for k e
  proof -
    from run that(1-3) have "createMany drv t rows s =
          rolled_back drv c e (h0 @ batch_calls t c (take (Suc k) rows)) s" by blast
    then show ?thesis by (simp add: rolled_back_def rb)
  qed
  have bad2: "createMany drv t rows s =
             (Inl e',
              s\<lparr>transactionConnection := Some c,
                trace := h0 @ batch_calls t c (take (Suc k) rows) @ [Rollback c]\<rparr>)"
    if "k < length rows"
      and "\<forall>j<k. \<exists>r. insert_answer drv h0 t c rows j = Inr r"
      and "insert_answer drv h0 t c rows k = Inl e"
      and rb: "d_rollback drv (h0 @ batch_calls t c (take (Suc k) rows)) c = Inl e'"
    for k e e'
  proof -
    from run that(1-3) have "createMany drv t rows s =
          rolled_back drv c e (h0 @ batch_calls t c (take (Suc k) rows)) s" by blast
    then show ?thesis by (simp add: rolled_back_def rb)
  qed
  have no_commit: "\<forall>c' sent. Commit c' \<notin> set (batch_calls t c sent)"
    by (simp add: Commit_notin_batch_calls)
  have calls: "\<forall>row sent.
        batch_calls t c (row # sent) =
          [Execute c
             (''\<newline>        INSERT INTO '' @ t @ '' ('' @ array_join '', '' (map fst row) @
              '')\<newline>        VALUES ('' @ array_join '', '' (replicate (length row) ''?'') @
              '')\<newline>      '')
             (map snd row),
           Release c] @ batch_calls t c sent"
    by (simp add: batch_calls_Cons insert_calls_def insert_text_def)
  have answers: "\<forall>h j.
        insert_answer drv h t c rows j =
          d_execute drv (h @ batch_calls t c (take j rows)) c
            (''\<newline>        INSERT INTO '' @ t @ '' ('' @ array_join '', '' (map fst (rows ! j)) @
             '')\<newline>        VALUES ('' @
             array_join '', '' (replicate (length (rows ! j)) ''?'') @ '')\<newline>      '')
            (map snd (rows ! j))"
    by (simp add: insert_answer_def insert_text_def)
  have nil: "batch_calls t c [] = []" by simp
  show ?thesis
  proof (intro conjI)
    show "(\<forall>j<length rows. \<exists>r. insert_answer drv h0 t c rows j = Inr r) \<longrightarrow>
        (\<exists>res. length res = length rows \<and>
           (\<forall>j<length rows. insert_answer drv h0 t c rows j = Inr (res ! j)) \<and>
           (d_commit drv (h0 @ batch_calls t c rows) c = Inr () \<longrightarrow>
              createMany drv t rows s =
                (Inr res,
                 s\<lparr>transactionConnection := None,
                   trace := h0 @ batch_calls t c rows @ [Commit c, Release c]\<rparr>)) \<and>
           (\<forall>e. d_commit drv (h0 @ batch_calls t c rows) c = Inl e \<longrightarrow>
              d_rollback drv (h0 @ batch_calls t c rows @ [Commit c]) c = Inr () \<longrightarrow>
              createMany drv t rows s =
                (Inl e,
                 s\<lparr>transactionConnection := None,
                   trace := h0 @ batch_calls t c rows @ [Commit c, Rollback c, Release c]\<rparr>)) \<and>
           (\<forall>e e'. d_commit drv (h0 @ batch_calls t c rows) c = Inl e \<longrightarrow>
              d_rollback drv (h0 @ batch_calls t c rows @ [Commit c]) c = Inl e' \<longrightarrow>
              createMany drv t rows s =
                (Inl e',
                 s\<lparr>transactionConnection := Some c,
                   trace := h0 @ batch_calls t c rows @ [Commit c, Rollback c]\<rparr>)))"
      using ok by (rule impI)
    show "\<forall>k e. k < length rows \<longrightarrow>
        (\<forall>j<k. \<exists>r. insert_answer drv h0 t c rows j = Inr r) \<longrightarrow>
        insert_answer drv h0 t c rows k = Inl e \<longrightarrow>
        (d_rollback drv (h0 @ batch_calls t c (take (Suc k) rows)) c = Inr () \<longrightarrow>
           createMany drv t rows s =
             (Inl e,
              s\<lparr>transactionConnection := None,
                trace := h0 @ batch_calls t c (take (Suc k) rows) @ [Rollback c, Release c]\<rparr>)) \<and>
        (\<forall>e'. d_rollback drv (h0 @ batch_calls t c (take (Suc k) rows)) c = Inl e' \<longrightarrow>
           createMany drv t rows s =
             (Inl e',
              s\<lparr>transactionConnection := Some c,
                trace := h0 @ batch_calls t c (take (Suc k) rows) @ [Rollback c]\<rparr>))"
      using bad1 bad2 by (intro allI impI conjI)
  qed (rule no_commit nil calls answers)+
qed

theorem createMany_transaction_witness:
  "d_getConnection okDriver (trace idle) = Inr 0 \<and>
   d_beginTransaction okDriver (trace idle @ [GetConnection]) 0 = Inr () \<and>
   batch_calls ''User'' 0 rows_AB =
     [Execute 0 ''\<newline>        INSERT INTO User (name)\<newline>        VALUES (?)\<newline>      ''
        [JStr ''A''],
      Release 0,
      Execute 0 ''\<newline>        INSERT INTO User (name)\<newline>        VALUES (?)\<newline>      ''
        [JStr ''B''],
      Release 0] \<and>
   createMany okDriver ''User'' rows_AB idle =
     (Inr [ResultSetHeader 1 0, ResultSetHeader 1 0],
      idle\<lparr>trace := [GetConnection, BeginTransaction 0] @ batch_calls ''User'' 0 rows_AB @
                       [Commit 0, Release 0]\<rparr>) \<and>
   createMany dupDriver ''User'' rows_AB idle =
     (Inl (DriverError ''Duplicate entry''),
      idle\<lparr>trace := [GetConnection, BeginTransaction 0] @ batch_calls ''User'' 0 rows_AB @
                       [Rollback 0, Release 0]\<rparr>) \<and>
   createMany lostDriver ''User'' rows_AB idle =
     (Inl (DriverError ''Connection lost''),
      idle\<lparr>transactionConnection := Some 0,
        trace := [GetConnection, BeginTransaction 0] @ batch_calls ''User'' 0 rows_AB @
                 [Rollback 0]\<rparr>) \<and>
   createMany noCommitDriver ''User'' rows_AB idle =
     (Inl (DriverError ''Deadlock found''),
      idle\<lparr>trace := [GetConnection, BeginTransaction 0] @ batch_calls ''User'' 0 rows_AB @
                       [Commit 0, Rollback 0, Release 0]\<rparr>)"
proof -
  let ?h0 = "[GetConnection, BeginTransaction 0]"
  let ?B = "batch_calls ''User'' 0 rows_AB"
  have h: "?h0 = trace idle @ [GetConnection, BeginTransaction 0]" by (simp add: idle_def)
  have tk: "take (Suc (Suc 0)) rows_AB = rows_AB" by (simp add: rows_AB_def)
  have k: "Suc 0 < length rows_AB" by (simp add: rows_AB_def)
  have fin: "idle\<lparr>transactionConnection := None, trace := xs\<rparr> = idle\<lparr>trace := xs\<rparr>" for xs
    by (simp add: idle_def)
  have g1: "d_getConnection okDriver (trace idle) = Inr 0" by (simp add: okDriver_def)
  have b1: "d_beginTransaction okDriver (trace idle @ [GetConnection]) 0 = Inr ()"
    by (simp add: okDriver_def)
  note t1 = createMany_transaction [OF g1 b1 h, where t = "''User''" and rows = rows_AB]
  have all1: "\<forall>j<length rows_AB. \<exists>r. insert_answer okDriver ?h0 ''User'' 0 rows_AB j = Inr r"
    by (simp add: insert_answer_def okDriver_def)
  have ans1: "insert_answer okDriver ?h0 ''User'' 0 rows_AB j = Inr (ResultSetHeader 1 0)" for j
    by (simp add: insert_answer_def okDriver_def)
  have cm1: "d_commit okDriver (?h0 @ ?B) 0 = Inr ()" by (simp add: okDriver_def)
  from t1 all1 obtain res where len: "length res = length rows_AB"
    and each: "\<forall>j<length rows_AB. insert_answer okDriver ?h0 ''User'' 0 rows_AB j = Inr (res ! j)"
    and run: "d_commit okDriver (?h0 @ ?B) 0 = Inr () \<longrightarrow>
       createMany okDriver ''User'' rows_AB idle =
         (Inr res, idle\<lparr>transactionConnection := None, trace := ?h0 @ ?B @ [Commit 0, Release 0]\<rparr>)"
    by blast
  from len have l2: "length res = 2" by (simp add: rows_AB_def)
  have "0 < length rows_AB" by (simp add: rows_AB_def)
  with each have "insert_answer okDriver ?h0 ''User'' 0 rows_AB 0 = Inr (res ! 0)" by blast
  with ans1 [of 0] have r0: "res ! 0 = ResultSetHeader 1 0" by simp
  from k each have "insert_answer okDriver ?h0 ''User'' 0 rows_AB (Suc 0) = Inr (res ! Suc 0)"
    by blast
  with ans1 [of "Suc 0"] have r1: "res ! Suc 0 = ResultSetHeader 1 0" by simp
  from l2 obtain x y where xy: "res = [x, y]"
    by (cases res; cases "tl res"; cases "tl (tl res)") auto
  with r0 r1 have res: "res = [ResultSetHeader 1 0, ResultSetHeader 1 0]" by simp
  from run cm1 have first: "createMany okDriver ''User'' rows_AB idle =
     (Inr [ResultSetHeader 1 0, ResultSetHeader 1 0],
      idle\<lparr>trace := ?h0 @ ?B @ [Commit 0, Release 0]\<rparr>)"
    by (simp add: res fin)
  have g2: "d_getConnection dupDriver (trace idle) = Inr 0"
    by (simp add: dupDriver_def okDriver_def)
  have b2: "d_beginTransaction dupDriver (trace idle @ [GetConnection]) 0 = Inr ()"
    by (simp add: dupDriver_def okDriver_def)
  note t2 = createMany_transaction [OF g2 b2 h, where t = "''User''" and rows = rows_AB]
  have before2: "\<forall>j<Suc 0. \<exists>r. insert_answer dupDriver ?h0 ''User'' 0 rows_AB j = Inr r"
    by (simp add: insert_answer_def dupDriver_def okDriver_def rows_AB_def)
  have at2: "insert_answer dupDriver ?h0 ''User'' 0 rows_AB (Suc 0) =
      Inl (DriverError ''Duplicate entry'')"
    by (simp add: insert_answer_def dupDriver_def okDriver_def rows_AB_def)
  have rb2: "d_rollback dupDriver (?h0 @ batch_calls ''User'' 0 (take (Suc (Suc 0)) rows_AB)) 0 = Inr ()"
    by (simp add: dupDriver_def okDriver_def)
  from t2 k before2 at2 rb2 have "createMany dupDriver ''User'' rows_AB idle =
     (Inl (DriverError ''Duplicate entry''),
      idle\<lparr>transactionConnection := None,
        trace := ?h0 @ batch_calls ''User'' 0 (take (Suc (Suc 0)) rows_AB) @ [Rollback 0, Release 0]\<rparr>)"
    by blast
  then have second: "createMany dupDriver ''User'' rows_AB idle =
     (Inl (DriverError ''Duplicate entry''), idle\<lparr>trace := ?h0 @ ?B @ [Rollback 0, Release 0]\<rparr>)"
    by (simp add: tk fin)
  have g3: "d_getConnection lostDriver (trace idle) = Inr 0"
    by (simp add: lostDriver_def dupDriver_def okDriver_def)
  have b3: "d_beginTransaction lostDriver (trace idle @ [GetConnection]) 0 = Inr ()"
    by (simp add: lostDriver_def dupDriver_def okDriver_def)
  note t3 = createMany_transaction [OF g3 b3 h, where t = "''User''" and rows = rows_AB]
  have before3: "\<forall>j<Suc 0. \<exists>r. insert_answer lostDriver ?h0 ''User'' 0 rows_AB j = Inr r"
    by (simp add: insert_answer_def lostDriver_def dupDriver_def okDriver_def rows_AB_def)
  have at3: "insert_answer lostDriver ?h0 ''User'' 0 rows_AB (Suc 0) =
      Inl (DriverError ''Duplicate entry'')"
    by (simp add: insert_answer_def lostDriver_def dupDriver_def okDriver_def rows_AB_def)
  have rb3: "d_rollback lostDriver (?h0 @ batch_calls ''User'' 0 (take (Suc (Suc 0)) rows_AB)) 0 =
      Inl (DriverError ''Connection lost'')"
    by (simp add: lostDriver_def)
  from t3 k before3 at3 rb3 have "createMany lostDriver ''User'' rows_AB idle =
     (Inl (DriverError ''Connection lost''),
      idle\<lparr>transactionConnection := Some 0,
        trace := ?h0 @ batch_calls ''User'' 0 (take (Suc (Suc 0)) rows_AB) @ [Rollback 0]\<rparr>)"
    by blast
  then have third: "createMany lostDriver ''User'' rows_AB idle =
     (Inl (DriverError ''Connection lost''),
      idle\<lparr>transactionConnection := Some 0, trace := ?h0 @ ?B @ [Rollback 0]\<rparr>)"
    by (simp add: tk)
  have g4: "d_getConnection noCommitDriver (trace idle) = Inr 0"
    by (simp add: noCommitDriver_def okDriver_def)
  have b4: "d_beginTransaction noCommitDriver (trace idle @ [GetConnection]) 0 = Inr ()"
    by (simp add: noCommitDriver_def okDriver_def)
  note t4 = createMany_transaction [OF g4 b4 h, where t = "''User''" and rows = rows_AB]
  have all4: "\<forall>j<length rows_AB. \<exists>r. insert_answer noCommitDriver ?h0 ''User'' 0 rows_AB j = Inr r"
    by (simp add: insert_answer_def noCommitDriver_def okDriver_def)
  have cm4: "d_commit noCommitDriver (?h0 @ ?B) 0 = Inl (DriverError ''Deadlock found'')"
    by (simp add: noCommitDriver_def)
  have rb4: "d_rollback noCommitDriver (?h0 @ ?B @ [Commit 0]) 0 = Inr ()"
    by (simp add: noCommitDriver_def okDriver_def)
  from t4 all4 cm4 rb4 have "createMany noCommitDriver ''User'' rows_AB idle =
     (Inl (DriverError ''Deadlock found''),
      idle\<lparr>transactionConnection := None,
        trace := ?h0 @ ?B @ [Commit 0, Rollback 0, Release 0]\<rparr>)"
    by blast
  then have fourth: "createMany noCommitDriver ''User'' rows_AB idle =
     (Inl (DriverError ''Deadlock found''),
      idle\<lparr>trace := ?h0 @ ?B @ [Commit 0, Rollback 0, Release 0]\<rparr>)"
    by (simp add: fin)
  from g1 b1 batch_calls_AB first second third fourth show ?thesis by (intro conjI)
qed

section \<open>Inserting one row\<close>

text \<open>
  C3. The INSERT statement that \<^verbatim>\<open>create\<close> sends lists the field names in the order of the
  field map, has one \<^verbatim>\<open>?\<close> per field in its VALUES list, and is sent with the field values
  as parameters in the same order. When neither the table name nor a field name contains a
  question mark, the statement holds exactly as many question marks as the map has fields.
\<close>

theorem create_statement:
  "(d_getConnection drv (trace s) = Inr c \<longrightarrow>
      create drv t fields' s =
        (d_execute drv (trace s @ [GetConnection]) c
           (''\<newline>      INSERT INTO '' @ t @ '' ('' @ array_join '', '' (map fst fields') @
            '')\<newline>      VALUES ('' @
            array_join '', '' (replicate (length fields') ''?'') @ '')\<newline>    '')
           (map snd fields'),
         s\<lparr>trace := trace s @
           [GetConnection,
            Execute c
              (''\<newline>      INSERT INTO '' @ t @ '' ('' @ array_join '', '' (map fst fields') @
               '')\<newline>      VALUES ('' @
               array_join '', '' (replicate (length fields') ''?'') @ '')\<newline>    '')
              (map snd fields'),
            Release c]\<rparr>)) \<and>
   count_list (array_join '', '' (replicate (length fields') ''?'')) CHR ''?'' = length fields' \<and>
   (CHR ''?'' \<notin> set t \<longrightarrow> (\<forall>k\<in>set (map fst fields'). CHR ''?'' \<notin> set k) \<longrightarrow>
      count_list (insertEntityQuery t (Object_keys fields')) CHR ''?'' = length fields')"
proof (intro conjI impI)
  assume "d_getConnection drv (trace s) = Inr c"
  then show "create drv t fields' s =
        (d_execute drv (trace s @ [GetConnection]) c
           (''\<newline>      INSERT INTO '' @ t @ '' ('' @ array_join '', '' (map fst fields') @
            '')\<newline>      VALUES ('' @
            array_join '', '' (replicate (length fields') ''?'') @ '')\<newline>    '')
           (map snd fields'),
         s\<lparr>trace := trace s @
           [GetConnection,
            Execute c
              (''\<newline>      INSERT INTO '' @ t @ '' ('' @ array_join '', '' (map fst fields') @
               '')\<newline>      VALUES ('' @
               array_join '', '' (replicate (length fields') ''?'') @ '')\<newline>    '')
              (map snd fields'),
            Release c]\<rparr>)"
    by (simp add: create_def executeQuery_pool insertEntityQuery_def Object_keys_def
        Object_values_def map_replicate_const)
next
  show "count_list (array_join '', '' (replicate (length fields') ''?'')) CHR ''?'' = length fields'"
    by (rule count_list_placeholders)
next
  assume t: "CHR ''?'' \<notin> set t" and k: "\<forall>k\<in>set (map fst fields'). CHR ''?'' \<notin> set k"
  from k have "count_list (array_join '', '' (map fst fields')) CHR ''?'' = 0"
    by (intro count_list_array_join_none) simp_all
  with t show "count_list (insertEntityQuery t (Object_keys fields')) CHR ''?'' = length fields'"
    by (simp add: insertEntityQuery_def Object_keys_def map_replicate_const
        count_list_placeholders count_list_notin)
qed

theorem create_statement_witness:
  "d_getConnection okDriver (trace idle) = Inr 0 \<and>
   create okDriver ''User'' john idle =
     (Inr (ResultSetHeader 1 0),
      idle\<lparr>trace :=
        [GetConnection,
         Execute 0 ''\<newline>      INSERT INTO User (name, age)\<newline>      VALUES (?, ?)\<newline>    ''
           [JStr ''John Doe'', JNum 33],
         Release 0]\<rparr>) \<and>
   CHR ''?'' \<notin> set ''User'' \<and> CHR ''?'' \<notin> set ''name'' \<and> CHR ''?'' \<notin> set ''age'' \<and>
   count_list (insertEntityQuery ''User'' (Object_keys john)) CHR ''?'' = 2"
proof -
  have g: "d_getConnection okDriver (trace idle) = Inr 0" by (simp add: okDriver_def)
  have q: "CHR ''?'' \<notin> set ''User''" "CHR ''?'' \<notin> set ''name''" "CHR ''?'' \<notin> set ''age''"
    by simp_all
  have ks: "\<forall>k\<in>set (map fst john). CHR ''?'' \<notin> set k" by (simp add: john_def)
  note t = create_statement [of okDriver idle 0 "''User''" john]
  from t g have run: "create okDriver ''User'' john idle =
        (d_execute okDriver (trace idle @ [GetConnection]) 0
           (''\<newline>      INSERT INTO '' @ ''User'' @ '' ('' @ array_join '', '' (map fst john) @
            '')\<newline>      VALUES ('' @
            array_join '', '' (replicate (length john) ''?'') @ '')\<newline>    '')
           (map snd john),
         idle\<lparr>trace := trace idle @
           [GetConnection,
            Execute 0
              (''\<newline>      INSERT INTO '' @ ''User'' @ '' ('' @ array_join '', '' (map fst john) @
               '')\<newline>      VALUES ('' @
               array_join '', '' (replicate (length john) ''?'') @ '')\<newline>    '')
              (map snd john),
            Release 0]\<rparr>)"
    by blast
  have ex: "d_execute okDriver h 0 q ps = Inr (ResultSetHeader 1 0)" for h q ps
    by (simp add: okDriver_def)
  have tr: "trace idle = []" by (simp add: idle_def)
  have first: "create okDriver ''User'' john idle =
     (Inr (ResultSetHeader 1 0),
      idle\<lparr>trace :=
        [GetConnection,
         Execute 0 ''\<newline>      INSERT INTO User (name, age)\<newline>      VALUES (?, ?)\<newline>    ''
           [JStr ''John Doe'', JNum 33],
         Release 0]\<rparr>)"
    by (simp add: run ex tr) (simp add: john_def)
  from t q(1) ks have "count_list (insertEntityQuery ''User'' (Object_keys john)) CHR ''?'' = length john"
    by blast
  then have cnt: "count_list (insertEntityQuery ''User'' (Object_keys john)) CHR ''?'' = 2"
    by (simp add: john_def)
  from g first q cnt show ?thesis by (intro conjI)
qed

text \<open>
  C4, as stated, fails: \<^verbatim>\<open>create\<close> with an empty field map raises no SchemaError. With a
  driver whose calls succeed it returns normally, having sent an INSERT with empty column and
  value lists.
\<close>

theorem create_empty_is_sent:
  "create okDriver ''User'' [] idle =
     (Inr (ResultSetHeader 1 0),
      idle\<lparr>trace :=
        [GetConnection,
         Execute 0 ''\<newline>      INSERT INTO User ()\<newline>      VALUES ()\<newline>    '' [],
         Release 0]\<rparr>)"
  by (simp add: create_def executeQuery_pool insertEntityQuery_def Object_keys_def
      Object_values_def okDriver_def idle_def)

text \<open>
  C4, amended. \<^verbatim>\<open>create\<close> does not check its field map. With an empty map it builds
  \<^verbatim>\<open>INSERT INTO t () VALUES ()\<close> with no parameters and hands it to the driver; it fails
  only where the driver does (taking the connection, or executing the statement), with the
  driver's error.
\<close>

theorem create_empty_statement:
  "create drv t [] s =
     (case d_getConnection drv (trace s) of
        Inl e \<Rightarrow> (Inl e, s\<lparr>trace := trace s @ [GetConnection]\<rparr>)
      | Inr c \<Rightarrow>
          (d_execute drv (trace s @ [GetConnection]) c
             (''\<newline>      INSERT INTO '' @ t @ '' ()\<newline>      VALUES ()\<newline>    '') [],
           s\<lparr>trace := trace s @
             [GetConnection,
              Execute c (''\<newline>      INSERT INTO '' @ t @ '' ()\<newline>      VALUES ()\<newline>    '') [],
              Release c]\<rparr>))"
  by (simp add: create_def executeQuery_pool insertEntityQuery_def Object_keys_def
      Object_values_def split: sum.splits)

section \<open>Pagination\<close>

text \<open>
  C5, as stated, fails: the clause is emitted for a page that is not positive. The test
  \<^verbatim>\<open>pageSize && page\<close> is true of every non-zero number, so \<^verbatim>\<open>page = -1\<close>,
  \<^verbatim>\<open>pageSize = 10\<close> yields \<^verbatim>\<open>LIMIT 10 OFFSET -20\<close>.
\<close>

theorem limitClause_negative_page:
  "\<not> (0 < (- 1 :: int) \<and> 0 < (10 :: int)) \<and>
   limitClause (Some (- 1)) (Some 10) = ''LIMIT 10 OFFSET -20'' \<and>
   selectEntitiesQuery okDriver ''User'' None None (Some (- 1)) (Some 10) None None =
     ''\<newline>        SELECT *\<newline>        FROM User\<newline>        \<newline>        \<newline>        LIMIT 10 OFFSET -20\<newline>      ''"
  by code_simp

text \<open>
  C5, amended. For a page and a page size that are safe integers with a safe-integer offset
  (or absent), \<^verbatim>\<open>find\<close> emits a LIMIT/OFFSET clause exactly when both are given and
  non-zero (so in particular whenever both are positive); the clause is then
  \<^verbatim>\<open>LIMIT pageSize OFFSET (page - 1) * pageSize\<close>: OFFSET 0 for page 1 and OFFSET 10 for
  page 2 at page size 10. Otherwise the clause is the empty text. The clause is the last line
  of the statement \<^verbatim>\<open>find\<close> sends.
\<close>

theorem limitClause_emitted:
  assumes "offset_exact page pageSize"
  shows
  "(limitClause page pageSize \<noteq> [] \<longleftrightarrow>
      (\<exists>p ps. page = Some p \<and> pageSize = Some ps \<and> p \<noteq> 0 \<and> ps \<noteq> 0)) \<and>
   (\<forall>p ps. page = Some p \<longrightarrow> pageSize = Some ps \<longrightarrow> p \<noteq> 0 \<longrightarrow> ps \<noteq> 0 \<longrightarrow>
      safe_integer p \<and> safe_integer ps \<and> safe_integer ((p - 1) * ps) \<and>
      limitClause page pageSize =
        ''LIMIT '' @ number_text ps @ '' OFFSET '' @ number_text ((p - 1) * ps)) \<and>
   (\<forall>p ps. page = Some p \<longrightarrow> pageSize = Some ps \<longrightarrow> 0 < p \<longrightarrow> 0 < ps \<longrightarrow>
      limitClause page pageSize \<noteq> []) \<and>
   limitClause (Some 1) (Some 10) = ''LIMIT 10 OFFSET 0'' \<and>
   limitClause (Some 2) (Some 10) = ''LIMIT 10 OFFSET 10'' \<and>
   selectEntitiesQuery drv t conditions fields' page pageSize sortBy sortOrder =
     ''\<newline>        SELECT '' @ selectFieldsText fields' @
     ''\<newline>        FROM '' @ t @
     ''\<newline>        '' @ conditionString drv conditions @
     ''\<newline>        '' @ orderByClause sortBy sortOrder @
     ''\<newline>        '' @ limitClause page pageSize @ ''\<newline>      '' \<and>
   (\<forall>c. d_getConnection drv (trace s) = Inr c \<longrightarrow>
      find_orm drv t conditions fields' page pageSize sortBy sortOrder s =
        (d_execute drv (trace s @ [GetConnection]) c
           (selectEntitiesQuery drv t conditions fields' page pageSize sortBy sortOrder) [],
         s\<lparr>trace := trace s @
           [GetConnection,
            Execute c
              (selectEntitiesQuery drv t conditions fields' page pageSize sortBy sortOrder) [],
            Release c]\<rparr>))"
proof (intro conjI allI impI)
  show "limitClause page pageSize \<noteq> [] \<longleftrightarrow>
      (\<exists>p ps. page = Some p \<and> pageSize = Some ps \<and> p \<noteq> 0 \<and> ps \<noteq> 0)"
    by (auto simp: limitClause_def split: option.splits)
next
  fix p ps :: int
  assume a: "page = Some p" "pageSize = Some ps"
  from assms a show "safe_integer p" "safe_integer ps" "safe_integer ((p - 1) * ps)"
    by (simp_all add: offset_exact_def)
  assume "p \<noteq> 0" "ps \<noteq> 0"
  with a show "limitClause page pageSize =
        ''LIMIT '' @ number_text ps @ '' OFFSET '' @ number_text ((p - 1) * ps)"
    by (simp add: limitClause_def)
next
  fix p ps :: int
  assume "page = Some p" "pageSize = Some ps" "0 < p" "0 < ps"
  then show "limitClause page pageSize \<noteq> []"
    by (simp add: limitClause_def)
next
  show "limitClause (Some 1) (Some 10) = ''LIMIT 10 OFFSET 0''" by code_simp
next
  show "limitClause (Some 2) (Some 10) = ''LIMIT 10 OFFSET 10''" by code_simp
next
  show "selectEntitiesQuery drv t conditions fields' page pageSize sortBy sortOrder =
     ''\<newline>        SELECT '' @ selectFieldsText fields' @
     ''\<newline>        FROM '' @ t @
     ''\<newline>        '' @ conditionString drv conditions @
     ''\<newline>        '' @ orderByClause sortBy sortOrder @
     ''\<newline>        '' @ limitClause page pageSize @ ''\<newline>      ''"
    by (simp add: selectEntitiesQuery_def)
next
  fix c
  assume "d_getConnection drv (trace s) = Inr c"
  then show "find_orm drv t conditions fields' page pageSize sortBy sortOrder s =
        (d_execute drv (trace s @ [GetConnection]) c
           (selectEntitiesQuery drv t conditions fields' page pageSize sortBy sortOrder) [],
         s\<lparr>trace := trace s @
           [GetConnection,
            Execute c
              (selectEntitiesQuery drv t conditions fields' page pageSize sortBy sortOrder) [],
            Release c]\<rparr>)"
    by (simp add: find_orm_def executeQuery_pool)
qed

theorem limitClause_emitted_witness:
  "offset_exact (Some 3) (Some 5) \<and> offset_exact (Some 3) (Some 0) \<and>
   offset_exact None (Some 5) \<and>
   (3::int) \<noteq> 0 \<and> (5::int) \<noteq> 0 \<and> (0::int) < 3 \<and> (0::int) < 5 \<and>
   limitClause (Some 3) (Some 5) = ''LIMIT 5 OFFSET 10'' \<and>
   limitClause (Some 3) (Some 5) \<noteq> [] \<and>
   limitClause (Some 3) (Some 0) = [] \<and> limitClause None (Some 5) = [] \<and>
   d_getConnection okDriver (trace idle) = Inr 0 \<and>
   find_orm okDriver ''User'' None None (Some 3) (Some 5) None None idle =
     (Inr (ResultSetHeader 1 0),
      idle\<lparr>trace :=
        [GetConnection,
         Execute 0
           ''\<newline>        SELECT *\<newline>        FROM User\<newline>        \<newline>        \<newline>        LIMIT 5 OFFSET 10\<newline>      ''
           [],
         Release 0]\<rparr>)"
proof -
  have e1: "offset_exact (Some 3) (Some 5)" by (simp add: offset_exact_def safe_integer_def)
  have e2: "offset_exact (Some 3) (Some 0)" by (simp add: offset_exact_def safe_integer_def)
  have e3: "offset_exact None (Some 5)" by (simp add: offset_exact_def safe_integer_def)
  note t = limitClause_emitted [OF e1, of okDriver "''User''" None None None None idle]
  have n: "(3::int) \<noteq> 0" "(5::int) \<noteq> 0" "(0::int) < 3" "(0::int) < 5" by simp_all
  from t n have "limitClause (Some 3) (Some 5) =
        ''LIMIT '' @ number_text 5 @ '' OFFSET '' @ number_text ((3 - 1) * 5)"
    by blast
  moreover have "number_text 5 = ''5''" "number_text ((3 - 1) * 5) = ''10''" by code_simp+
  ultimately have a: "limitClause (Some 3) (Some 5) = ''LIMIT 5 OFFSET 10''" by simp
  from t n have b: "limitClause (Some 3) (Some 5) \<noteq> []" by blast
  note t0 = limitClause_emitted [OF e2, of okDriver "''User''" None None None None idle]
  from t0 have c: "limitClause (Some 3) (Some 0) = []" by blast
  note t1 = limitClause_emitted [OF e3, of okDriver "''User''" None None None None idle]
  from t1 have d: "limitClause None (Some 5) = []" by blast
  have g: "d_getConnection okDriver (trace idle) = Inr 0" by (simp add: okDriver_def)
  from t have q: "selectEntitiesQuery okDriver ''User'' None None (Some 3) (Some 5) None None =
     ''\<newline>        SELECT '' @ selectFieldsText None @
     ''\<newline>        FROM '' @ ''User'' @
     ''\<newline>        '' @ conditionString okDriver None @
     ''\<newline>        '' @ orderByClause None None @
     ''\<newline>        '' @ limitClause (Some 3) (Some 5) @ ''\<newline>      ''"
    by blast
  have q': "selectEntitiesQuery okDriver ''User'' None None (Some 3) (Some 5) None None =
     ''\<newline>        SELECT *\<newline>        FROM User\<newline>        \<newline>        \<newline>        LIMIT 5 OFFSET 10\<newline>      ''"
    unfolding q a by (simp add: selectFieldsText_def conditionString_def orderByClause_def)
  from t g have "find_orm okDriver ''User'' None None (Some 3) (Some 5) None None idle =
        (d_execute okDriver (trace idle @ [GetConnection]) 0
           (selectEntitiesQuery okDriver ''User'' None None (Some 3) (Some 5) None None) [],
         idle\<lparr>trace := trace idle @
           [GetConnection,
            Execute 0
              (selectEntitiesQuery okDriver ''User'' None None (Some 3) (Some 5) None None) [],
            Release 0]\<rparr>)"
    by blast
  then have f: "find_orm okDriver ''User'' None None (Some 3) (Some 5) None None idle =
     (Inr (ResultSetHeader 1 0),
      idle\<lparr>trace :=
        [GetConnection,
         Execute 0
           ''\<newline>        SELECT *\<newline>        FROM User\<newline>        \<newline>        \<newline>        LIMIT 5 OFFSET 10\<newline>      ''
           [],
         Release 0]\<rparr>)"
    unfolding q' by (simp add: okDriver_def) (simp add: idle_def)
  from e1 e2 e3 n a b c d g f show ?thesis by (intro conjI)
qed

section \<open>Join\<close>

text \<open>
  C6, as stated, fails: \<^verbatim>\<open>join\<close> with an empty list of conditions raises no
  ValidationError. With a driver whose calls succeed it returns normally, having sent a
  statement whose ON clause is empty.
\<close>

theorem join_empty_is_sent:
  "join okDriver (Some INNER) ''User'' ''Address'' [] None idle =
     (Inr (ResultSetHeader 1 0),
      idle\<lparr>trace :=
        [GetConnection,
         Execute 0
           ''\<newline>      SELECT *\<newline>      FROM User\<newline>      INNER JOIN Address ON \<newline>    '' [],
         Release 0]\<rparr>)"
  by (simp add: join_def joinQuery_def toUpperCase_literals executeQuery_pool okDriver_def idle_def)

text \<open>
  C6, amended. \<^verbatim>\<open>join\<close> does not check \<^verbatim>\<open>joinConditions\<close>. For every list, empty or
  not, it sends \<^verbatim>\<open>SELECT <fields or *> FROM table1 <joinType> JOIN table2 ON\<close> followed by
  the conditions joined by \<^verbatim>\<open>AND\<close>, with no parameters; with the empty list nothing follows
  \<^verbatim>\<open>ON\<close>. It fails only where the driver does, with the driver's error.
\<close>

theorem join_statement:
  "join drv joinType table1 table2 joinConditions selectFields s =
     (case d_getConnection drv (trace s) of
        Inl e \<Rightarrow> (Inl e, s\<lparr>trace := trace s @ [GetConnection]\<rparr>)
      | Inr c \<Rightarrow>
          (d_execute drv (trace s @ [GetConnection]) c
             (joinQuery joinType table1 table2 joinConditions selectFields) [],
           s\<lparr>trace := trace s @
             [GetConnection,
              Execute c (joinQuery joinType table1 table2 joinConditions selectFields) [],
              Release c]\<rparr>)) \<and>
   joinQuery joinType table1 table2 joinConditions selectFields =
     ''\<newline>      SELECT '' @
     (case selectFields of None \<Rightarrow> ''*'' | Some fs \<Rightarrow> array_join '', '' fs) @
     ''\<newline>      FROM '' @ table1 @
     ''\<newline>      '' @ JoinType_text (case joinType of None \<Rightarrow> INNER | Some jt \<Rightarrow> jt) @
     '' JOIN '' @ table2 @ '' ON '' @ array_join '' AND '' joinConditions @ ''\<newline>    '' \<and>
   joinQuery joinType table1 table2 [] selectFields =
     ''\<newline>      SELECT '' @
     (case selectFields of None \<Rightarrow> ''*'' | Some fs \<Rightarrow> array_join '', '' fs) @
     ''\<newline>      FROM '' @ table1 @
     ''\<newline>      '' @ JoinType_text (case joinType of None \<Rightarrow> INNER | Some jt \<Rightarrow> jt) @
     '' JOIN '' @ table2 @ '' ON \<newline>    ''"
proof (intro conjI)
  show "join drv joinType table1 table2 joinConditions selectFields s =
     (case d_getConnection drv (trace s) of
        Inl e \<Rightarrow> (Inl e, s\<lparr>trace := trace s @ [GetConnection]\<rparr>)
      | Inr c \<Rightarrow>
          (d_execute drv (trace s @ [GetConnection]) c
             (joinQuery joinType table1 table2 joinConditions selectFields) [],
           s\<lparr>trace := trace s @
             [GetConnection,
              Execute c (joinQuery joinType table1 table2 joinConditions selectFields) [],
              Release c]\<rparr>))"
    by (simp add: join_def executeQuery_pool)
qed (simp_all add: joinQuery_def toUpperCase_JoinType split: option.splits)

section \<open>Ending a transaction\<close>

text \<open>
  C7. With no transaction active (the handle is null), \<^verbatim>\<open>commitTransaction\<close> and
  \<^verbatim>\<open>rollbackTransaction\<close> return normally and leave the instance and the log of driver calls
  as they were: no COMMIT and no ROLLBACK is issued. On an active transaction, whenever either
  returns normally it has issued its COMMIT (ROLLBACK), released the connection and set the
  handle back to null, so the handle is clear before anything that follows can begin a
  transaction; and it does return normally whenever the driver's COMMIT (ROLLBACK) does.
\<close>

theorem end_of_transaction:
  "(transactionConnection s = None \<longrightarrow>
      commitTransaction drv s = (Inr (), s) \<and> rollbackTransaction drv s = (Inr (), s)) \<and>
   (\<forall>c s'. transactionConnection s = Some c \<longrightarrow> commitTransaction drv s = (Inr (), s') \<longrightarrow>
      transactionConnection s' = None \<and> trace s' = trace s @ [Commit c, Release c]) \<and>
   (\<forall>c s'. transactionConnection s = Some c \<longrightarrow> rollbackTransaction drv s = (Inr (), s') \<longrightarrow>
      transactionConnection s' = None \<and> trace s' = trace s @ [Rollback c, Release c]) \<and>
   (\<forall>c. transactionConnection s = Some c \<longrightarrow> d_commit drv (trace s) c = Inr () \<longrightarrow>
      commitTransaction drv s =
        (Inr (), s\<lparr>transactionConnection := None, trace := trace s @ [Commit c, Release c]\<rparr>)) \<and>
   (\<forall>c. transactionConnection s = Some c \<longrightarrow> d_rollback drv (trace s) c = Inr () \<longrightarrow>
      rollbackTransaction drv s =
        (Inr (), s\<lparr>transactionConnection := None, trace := trace s @ [Rollback c, Release c]\<rparr>))"
proof (intro conjI allI impI)
  assume "transactionConnection s = None"
  then show "commitTransaction drv s = (Inr (), s)" by (rule commitTransaction_idle)
next
  assume "transactionConnection s = None"
  then show "rollbackTransaction drv s = (Inr (), s)" by (rule rollbackTransaction_idle)
next
  fix c s'
  assume a: "transactionConnection s = Some c" and r: "commitTransaction drv s = (Inr (), s')"
  from r show "transactionConnection s' = None"
    by (auto simp: commitTransaction_active [OF a] split: sum.splits)
  from r show "trace s' = trace s @ [Commit c, Release c]"
    by (auto simp: commitTransaction_active [OF a] split: sum.splits)
next
  fix c s'
  assume a: "transactionConnection s = Some c" and r: "rollbackTransaction drv s = (Inr (), s')"
  from r show "transactionConnection s' = None"
    by (auto simp: rollbackTransaction_active [OF a] split: sum.splits)
  from r show "trace s' = trace s @ [Rollback c, Release c]"
    by (auto simp: rollbackTransaction_active [OF a] split: sum.splits)
next
  fix c
  assume a: "transactionConnection s = Some c" and d: "d_commit drv (trace s) c = Inr ()"
  show "commitTransaction drv s =
          (Inr (), s\<lparr>transactionConnection := None, trace := trace s @ [Commit c, Release c]\<rparr>)"
    by (simp add: commitTransaction_active [OF a] d)
next
  fix c
  assume a: "transactionConnection s = Some c" and d: "d_rollback drv (trace s) c = Inr ()"
  show "rollbackTransaction drv s =
          (Inr (), s\<lparr>transactionConnection := None, trace := trace s @ [Rollback c, Release c]\<rparr>)"
    by (simp add: rollbackTransaction_active [OF a] d)
qed

theorem end_of_transaction_witness:
  "transactionConnection idle = None \<and>
   d_commit okDriver (trace active) 0 = Inr () \<and> d_rollback okDriver (trace active) 0 = Inr () \<and>
   commitTransaction okDriver idle = (Inr (), idle) \<and>
   rollbackTransaction okDriver idle = (Inr (), idle) \<and>
   transactionConnection active = Some 0 \<and>
   commitTransaction okDriver active = (Inr (), idle\<lparr>trace := [Commit 0, Release 0]\<rparr>) \<and>
   transactionConnection (idle\<lparr>trace := [Commit 0, Release 0]\<rparr>) = None \<and>
   rollbackTransaction okDriver active = (Inr (), idle\<lparr>trace := [Rollback 0, Release 0]\<rparr>) \<and>
   transactionConnection (idle\<lparr>trace := [Rollback 0, Release 0]\<rparr>) = None"
proof -
  have i: "transactionConnection idle = None" by (simp add: idle_def)
  have a: "transactionConnection active = Some 0" by (simp add: active_def)
  note t1 = end_of_transaction [of idle okDriver]
  note t2 = end_of_transaction [of active okDriver]
  from t1 i have "commitTransaction okDriver idle = (Inr (), idle)"
    and "rollbackTransaction okDriver idle = (Inr (), idle)" by blast+
  moreover from t2 a commit_active_ok
  have "transactionConnection (idle\<lparr>trace := [Commit 0, Release 0]\<rparr>) = None" by blast
  moreover from t2 a rollback_active_ok
  have "transactionConnection (idle\<lparr>trace := [Rollback 0, Release 0]\<rparr>) = None" by blast
  moreover have "d_commit okDriver (trace active) 0 = Inr ()"
    and "d_rollback okDriver (trace active) 0 = Inr ()" by (simp_all add: okDriver_def)
  ultimately show ?thesis using i a commit_active_ok rollback_active_ok by simp
qed

section \<open>Bound parameters and escaped literals\<close>





section \<open>Creating a table\<close>









section \<open>Constructing an instance\<close>

text \<open>
  C10. The constructor works on the caller's options object itself. After it the object at the
  caller's address holds neither \<^verbatim>\<open>sync\<close> nor \<^verbatim>\<open>logging\<close>, its other fields (host, user,
  password, database, connectionLimit) are as before, no other object has changed, and the
  instance has taken the two flags (false when absent).
\<close>

theorem constructor_deletes_keys:
  "h a = Some opts \<Longrightarrow>
   \<exists>this h' opts'.
     constructor h a = Inr (this, h') \<and>
     connectionOptions this = a \<and>
     h' a = Some opts' \<and>
     opt_sync opts' = None \<and> opt_logging opts' = None \<and>
     opt_host opts' = opt_host opts \<and> opt_user opts' = opt_user opts \<and>
     opt_password opts' = opt_password opts \<and> opt_database opts' = opt_database opts \<and>
     opt_connectionLimit opts' = opt_connectionLimit opts \<and>
     opts' = opts\<lparr>opt_sync := None, opt_logging := None\<rparr> \<and>
     (\<forall>b. b \<noteq> a \<longrightarrow> h' b = h b) \<and>
     sync this = (opt_sync opts = Some True) \<and>
     logging this = (opt_logging opts = Some True)"
  by (auto simp: constructor_def Let_def split: option.splits)

theorem constructor_deletes_keys_witness:
  "example_heap 0 = Some example_options \<and>
   opt_sync example_options = Some True \<and> opt_logging example_options = Some True \<and>
   (\<exists>this h'.
      constructor example_heap 0 = Inr (this, h') \<and>
      h' 0 = Some \<lparr>opt_connectionLimit = Some 20, opt_host = ''localhost'', opt_user = ''root'',
                    opt_password = ''root'', opt_database = ''example-schema'', opt_sync = None,
                    opt_logging = None\<rparr> \<and>
      sync this \<and> logging this)"
proof -
  have h: "example_heap 0 = Some example_options" by (simp add: example_heap_def)
  have s: "opt_sync example_options = Some True" "opt_logging example_options = Some True"
    by (simp_all add: example_options_def)
  from constructor_deletes_keys [of example_heap 0 example_options, OF h] obtain this h' opts' where
    r: "constructor example_heap 0 = Inr (this, h')"
    and o: "h' 0 = Some opts'" "opts' = example_options\<lparr>opt_sync := None, opt_logging := None\<rparr>"
    and f: "sync this = (opt_sync example_options = Some True)"
      "logging this = (opt_logging example_options = Some True)"
    by blast
  from o have o': "h' 0 = Some \<lparr>opt_connectionLimit = Some 20, opt_host = ''localhost'',
      opt_user = ''root'', opt_password = ''root'', opt_database = ''example-schema'',
      opt_sync = None, opt_logging = None\<rparr>"
    by (simp add: example_options_def)
  from f s have "sync this" "logging this" by simp_all
  with r o' have "\<exists>this h'.
      constructor example_heap 0 = Inr (this, h') \<and>
      h' 0 = Some \<lparr>opt_connectionLimit = Some 20, opt_host = ''localhost'', opt_user = ''root'',
                    opt_password = ''root'', opt_database = ''example-schema'', opt_sync = None,
                    opt_logging = None\<rparr> \<and>
      sync this \<and> logging this"
    by blast
  with h s show ?thesis by (intro conjI)
qed

end
